theory Spec2Isabelle
  imports Main "HOL-Library.AList"
begin

text \<open>
  A shallow embedding of the voice-cloning studio's profile store
  (\<^verbatim>\<open>voice_profile_manager.py\<close>, class \<^verbatim>\<open>VoiceProfileManager\<close>), of its style
  segmenter and of its multi-style synthesis loop (\<^verbatim>\<open>app.py\<close>, class
  \<^verbatim>\<open>VoiceCloner\<close>).

  What is outside the program is an input of the model: the clock is an argument of every
  operation that calls \<^verbatim>\<open>time.strftime\<close>, the synthesis engine is a record of
  functions, and the filesystem is part of the state.  The calls into the filesystem and
  into the audio libraries that write (\<^verbatim>\<open>mkdir\<close>, \<^verbatim>\<open>open(..., "w")\<close>,
  \<^verbatim>\<open>torchaudio.save\<close>, \<^verbatim>\<open>sf.write\<close>) and the engine are taken to return; the
  branches of the model are the early returns the source itself writes, the read of
  \<^verbatim>\<open>add_sample\<close> (\<^verbatim>\<open>torchaudio.load\<close>) that fails when there is no audio file at
  the path, and the \<^verbatim>\<open>np.concatenate\<close> of the synthesis loop, which fails on an
  array without axis.  Paths follow \<^verbatim>\<open>pathlib\<close> on POSIX.
\<close>

section \<open>Strings\<close>

text \<open>
  Python strings are modelled as \<open>string\<close> (a \<open>char list\<close>), each \<open>char\<close> read as a
  code point below 256.  \<open>isspace\<close> is the set of such code points that
  \<^verbatim>\<open>str.strip()\<close> removes: TAB, LF, VT, FF, CR, the separators 28 to 31, the blank,
  NEL (133) and the no-break space (160).
\<close>

definition isspace :: "char \<Rightarrow> bool" where
  "isspace c = (of_char c \<in> {9, 10, 11, 12, 13, 28, 29, 30, 31, 32, 133, 160 :: nat})"

definition strip :: "string \<Rightarrow> string" where
  "strip s = rev (dropWhile isspace (rev (dropWhile isspace s)))"

text \<open>\<^verbatim>\<open>s.replace(' ', '_')\<close>\<close>

definition replace_spaces :: "string \<Rightarrow> string" where
  "replace_spaces s = map (\<lambda>c. if c = CHR '' '' then CHR ''_'' else c) s"

text \<open>The quoted name of an f-string such as \<^verbatim>\<open>f"Profile '{name}' already exists."\<close>\<close>

definition quoted :: "string \<Rightarrow> string" where
  "quoted s = CHR 0x27 # s @ [CHR 0x27]"

section \<open>The clock\<close>

text \<open>
  \<^verbatim>\<open>time.strftime(fmt)\<close> formats the local time at the moment of the call.  The
  reading is a \<open>struct_time\<close>; \<^verbatim>\<open>%Y\<close> prints the year in decimal, the other
  directives used here print two digits.
\<close>

record struct_time =
  tm_year :: nat
  tm_mon :: nat
  tm_mday :: nat
  tm_hour :: nat
  tm_min :: nat
  tm_sec :: nat

definition digit_char :: "nat \<Rightarrow> char" where
  "digit_char d = ''0123456789'' ! d"

function dec :: "nat \<Rightarrow> string" where
  "dec n = (if n < 10 then [digit_char n] else dec (n div 10) @ [digit_char (n mod 10)])"
  by pat_completeness auto
termination
  by (relation "measure id") auto

declare dec.simps [simp del]

definition pad2 :: "nat \<Rightarrow> string" where
  "pad2 n = (if n < 10 then CHR ''0'' # dec n else dec n)"

text \<open>\<^verbatim>\<open>time.strftime("%Y-%m-%d %H:%M:%S")\<close>\<close>

definition strftime_iso :: "struct_time \<Rightarrow> string" where
  "strftime_iso t =
     dec (tm_year t) @ ''-'' @ pad2 (tm_mon t) @ ''-'' @ pad2 (tm_mday t) @ '' '' @
     pad2 (tm_hour t) @ '':'' @ pad2 (tm_min t) @ '':'' @ pad2 (tm_sec t)"

text \<open>\<^verbatim>\<open>time.strftime('%Y%m%d_%H%M%S')\<close>\<close>

definition strftime_compact :: "struct_time \<Rightarrow> string" where
  "strftime_compact t =
     dec (tm_year t) @ pad2 (tm_mon t) @ pad2 (tm_mday t) @ ''_'' @
     pad2 (tm_hour t) @ pad2 (tm_min t) @ pad2 (tm_sec t)"

section \<open>Paths\<close>

text \<open>
  A \<^verbatim>\<open>pathlib.PurePosixPath\<close> is its root (empty, one slash, or two slashes when the
  string starts with exactly two) and its parts: the components between slashes, the
  empty ones and the dots dropped.  Joining with a string that has a root gives the path
  of that string alone.
\<close>

type_synonym path = "string \<times> string list"

fun split_acc :: "string \<Rightarrow> string \<Rightarrow> string list" where
  "split_acc w [] = [w]"
| "split_acc w (c # cs) =
     (if c = CHR ''/'' then w # split_acc [] cs else split_acc (w @ [c]) cs)"

text \<open>\<^verbatim>\<open>s.split('/')\<close>\<close>

definition split_sep :: "string \<Rightarrow> string list" where
  "split_sep s = split_acc [] s"

definition path_root :: "string \<Rightarrow> string" where
  "path_root s =
     (let n = length (takeWhile (\<lambda>c. c = CHR ''/'') s)
      in if n = 0 then [] else if n = 2 then ''//'' else ''/'')"

definition path_parts :: "string \<Rightarrow> string list" where
  "path_parts s = filter (\<lambda>w. w \<noteq> [] \<and> w \<noteq> ''.'') (split_sep s)"

text \<open>\<^verbatim>\<open>Path(s)\<close>\<close>

definition Path :: "string \<Rightarrow> path" where
  "Path s = (path_root s, path_parts s)"

text \<open>\<^verbatim>\<open>p / s\<close>\<close>

definition joinpath :: "path \<Rightarrow> string \<Rightarrow> path" where
  "joinpath p s = (if path_root s \<noteq> [] then Path s else (fst p, snd p @ path_parts s))"

fun join_sep :: "string list \<Rightarrow> string" where
  "join_sep [] = []"
| "join_sep [w] = w"
| "join_sep (w # ws) = w @ CHR ''/'' # join_sep ws"

text \<open>\<^verbatim>\<open>str(p)\<close>\<close>

definition path_str :: "path \<Rightarrow> string" where
  "path_str p = (let s = fst p @ join_sep (snd p) in if s = [] then ''.'' else s)"

text \<open>
  \<^verbatim>\<open>os.path.splitext(p)[1]\<close>: the extension starts at the last dot of the last
  component, unless only dots stand before it in that component.
\<close>

definition splitext_ext :: "string \<Rightarrow> string" where
  "splitext_ext p =
     (let base = rev (takeWhile (\<lambda>c. c \<noteq> CHR ''/'') (rev p));
          stem = dropWhile (\<lambda>c. c = CHR ''.'') base
      in if CHR ''.'' \<in> set stem
         then CHR ''.'' # rev (takeWhile (\<lambda>c. c \<noteq> CHR ''.'') (rev stem))
         else [])"

section \<open>StyleSegmenter\<close>

text \<open>
  \<^verbatim>\<open>re.findall(r'\{(.*?)\}(.*?)(?=\{|$)', s, re.DOTALL)\<close>.  A match starts at the first
  opening brace that has a closing brace after it; the first group runs lazily to the
  first closing brace (with DOTALL the dot matches every character, an opening brace
  included); the second group runs lazily to the first position that is followed by an
  opening brace or is the end of \<open>s\<close>; the lookahead consumes nothing, so the scan
  resumes at that brace.  The only caller passes \<^verbatim>\<open>text + '{'\<close>, which never ends in
  a newline, so \<^verbatim>\<open>$\<close> matches at the very end only.
\<close>

function findall_markers :: "string \<Rightarrow> (string \<times> string) list" where
  "findall_markers s =
     (case dropWhile (\<lambda>c. c \<noteq> CHR ''{'') s of
        [] \<Rightarrow> []
      | _ # r \<Rightarrow>
          (case dropWhile (\<lambda>c. c \<noteq> CHR ''}'') r of
             [] \<Rightarrow> []
           | _ # r' \<Rightarrow>
               (takeWhile (\<lambda>c. c \<noteq> CHR ''}'') r, takeWhile (\<lambda>c. c \<noteq> CHR ''{'') r')
                 # findall_markers (dropWhile (\<lambda>c. c \<noteq> CHR ''{'') r')))"
  by pat_completeness auto
termination
proof (relation "measure length", goal_cases)
  case 1
  show ?case by simp
next
  case (2 s x21 r x21a r')
  have "length (dropWhile (\<lambda>c. c \<noteq> CHR ''{'') r') \<le> length r'"
    by (rule length_dropWhile_le)
  moreover have "length (dropWhile (\<lambda>c. c \<noteq> CHR ''}'') r) \<le> length r"
    by (rule length_dropWhile_le)
  moreover have "length (dropWhile (\<lambda>c. c \<noteq> CHR ''{'') s) \<le> length s"
    by (rule length_dropWhile_le)
  ultimately show ?case using 2 by simp
qed

declare findall_markers.simps [simp del]

text \<open>
  The loop over the matches: both groups are stripped, and a match whose stripped content
  is empty appends nothing.
\<close>

fun collect_segments :: "(string \<times> string) list \<Rightarrow> (string \<times> string) list" where
  "collect_segments [] = []"
| "collect_segments ((style, content) # matches) =
     (if strip content \<noteq> []
      then (strip style, strip content) # collect_segments matches
      else collect_segments matches)"

text \<open>\<^verbatim>\<open>VoiceCloner._parse_style_segments\<close>\<close>

definition parse_style_segments :: "string \<Rightarrow> (string \<times> string) list" where
  "parse_style_segments text =
     (let matches = findall_markers (text @ ''{'');
          segments = collect_segments matches
      in if segments = [] \<and> strip text \<noteq> []
         then segments @ [(''default'', strip text)]
         else segments)"

text \<open>
  The shape of an annotated text, for stating what the segmenter returns: a run of
  markers, each an opening brace, a style name free of closing braces, a closing brace
  and a content free of opening braces; before them a preamble free of opening braces;
  after them nothing, or an opening brace that is never closed.
\<close>

definition render :: "(string \<times> string) list \<Rightarrow> string" where
  "render ms = concat (map (\<lambda>(style, content). ''{'' @ style @ ''}'' @ content) ms)"

definition wf_marker :: "string \<times> string \<Rightarrow> bool" where
  "wf_marker m = (CHR ''}'' \<notin> set (fst m) \<and> CHR ''{'' \<notin> set (snd m))"

definition unclosed :: "string \<Rightarrow> bool" where
  "unclosed tail = (case tail of [] \<Rightarrow> True | c # t \<Rightarrow> c = CHR ''{'' \<and> CHR ''}'' \<notin> set t)"

section \<open>ProfileStore\<close>

text \<open>
  The manifest of a profile, as \<^verbatim>\<open>create_profile\<close> builds it and the later
  operations extend it.  A Python dict keeps its keys in insertion order, and an
  assignment to a key that is present keeps the key's place: a dict is an association
  list, read with \<open>map_of\<close> and written with \<open>AList.update\<close>.  The key
  \<^verbatim>\<open>"outputs"\<close> is absent until the first output is saved.
\<close>

record sample_entry =
  sample_path :: string
  sample_transcription :: string
  sample_added_at :: string

record style_entry =
  style_sample :: string
  style_added_at :: string

record output_entry =
  output_path :: string
  output_text :: string
  output_style :: string
  output_created_at :: string

record profile =
  name :: string
  description :: string
  created_at :: string
  samples :: "(string \<times> sample_entry) list"
  styles :: "(string \<times> style_entry) list"
  outputs :: "(string \<times> output_entry) list option"

text \<open>
  A file holds a manifest (what \<^verbatim>\<open>json.dump\<close> wrote) or audio with its sample
  rate.  The state is the manager's attributes together with the directories and files
  of the filesystem.
\<close>

datatype 'a fcontent = Manifest profile | Audio 'a nat

record 'a store =
  profiles_dir :: path
  current_profile :: "string option"
  profiles :: "(string \<times> profile) list"
  dirs :: "path set"
  files :: "path \<Rightarrow> 'a fcontent option"

datatype error = AudioLoadError string | UnboundLocalError string | ValueError string

text \<open>\<^verbatim>\<open>p.mkdir(exist_ok=True, parents=True)\<close>: the directory and its ancestors.\<close>

definition mkdir_parents :: "path \<Rightarrow> path set \<Rightarrow> path set" where
  "mkdir_parents p ds = ds \<union> set (map (\<lambda>k. (fst p, take k (snd p))) [0..<Suc (length (snd p))])"

text \<open>\<^verbatim>\<open>VoiceProfileManager.create_profile\<close>\<close>

definition create_profile ::
  "'a store \<Rightarrow> string \<Rightarrow> string \<Rightarrow> struct_time \<Rightarrow> 'a store \<times> string" where
  "create_profile s nm descr now =
     (if map_of (profiles s) nm \<noteq> None
      then (s, ''Profile '' @ quoted nm @ '' already exists.'')
      else
        let profile_dir = joinpath (profiles_dir s) nm;
            dirs1 = mkdir_parents profile_dir (dirs s);
            dirs2 = insert (joinpath profile_dir ''samples'') dirs1;
            dirs3 = insert (joinpath profile_dir ''outputs'') dirs2;
            profile_data = \<lparr>name = nm, description = descr, created_at = strftime_iso now,
                             samples = [], styles = [], outputs = None\<rparr>;
            files1 = (files s)(joinpath profile_dir ''profile.json'' \<mapsto> Manifest profile_data)
        in (s\<lparr>profiles := AList.update nm profile_data (profiles s),
               current_profile := Some nm, dirs := dirs3, files := files1\<rparr>,
            ''Profile '' @ quoted nm @ '' created successfully.''))"

text \<open>
  \<^verbatim>\<open>VoiceProfileManager.add_sample\<close>.  \<^verbatim>\<open>torchaudio.load\<close> raises when there is
  no audio file at \<^verbatim>\<open>audio_path\<close>; nothing has been changed by then.
\<close>

definition add_sample ::
  "'a store \<Rightarrow> string \<Rightarrow> string \<Rightarrow> string \<Rightarrow> string \<Rightarrow> struct_time
     \<Rightarrow> 'a store \<times> (error + string)" where
  "add_sample s profile_name sample_name audio_path transcription now =
     (case map_of (profiles s) profile_name of
        None \<Rightarrow> (s, Inr (''Profile '' @ quoted profile_name @ '' does not exist.''))
      | Some p \<Rightarrow>
          let profile_dir = joinpath (profiles_dir s) profile_name;
              samples_dir = joinpath profile_dir ''samples'';
              ext = splitext_ext audio_path;
              sample_filename = replace_spaces sample_name @ ext;
              sample_file = joinpath samples_dir sample_filename
          in (case files s (Path audio_path) of
                Some (Audio audio sr) \<Rightarrow>
                  let files1 = (files s)(sample_file \<mapsto> Audio audio sr);
                      p' = p\<lparr>samples :=
                             AList.update sample_name
                               \<lparr>sample_path = path_str sample_file,
                                sample_transcription = transcription,
                                sample_added_at = strftime_iso now\<rparr>
                               (samples p)\<rparr>;
                      files2 = files1(joinpath profile_dir ''profile.json'' \<mapsto> Manifest p')
                  in (s\<lparr>profiles := AList.update profile_name p' (profiles s), files := files2\<rparr>,
                      Inr (''Sample '' @ quoted sample_name @ '' added to profile '' @
                           quoted profile_name @ ''.''))
              | _ \<Rightarrow> (s, Inl (AudioLoadError audio_path))))"

text \<open>\<^verbatim>\<open>VoiceProfileManager.add_style\<close>\<close>

definition add_style ::
  "'a store \<Rightarrow> string \<Rightarrow> string \<Rightarrow> string \<Rightarrow> struct_time \<Rightarrow> 'a store \<times> string" where
  "add_style s profile_name style_name sample_name now =
     (case map_of (profiles s) profile_name of
        None \<Rightarrow> (s, ''Profile '' @ quoted profile_name @ '' does not exist.'')
      | Some p \<Rightarrow>
          if map_of (samples p) sample_name = None
          then (s, ''Sample '' @ quoted sample_name @ '' does not exist in profile '' @
                   quoted profile_name @ ''.'')
          else
            let profile_dir = joinpath (profiles_dir s) profile_name;
                p' = p\<lparr>styles :=
                       AList.update style_name
                         \<lparr>style_sample = sample_name, style_added_at = strftime_iso now\<rparr>
                         (styles p)\<rparr>;
                files1 = (files s)(joinpath profile_dir ''profile.json'' \<mapsto> Manifest p')
            in (s\<lparr>profiles := AList.update profile_name p' (profiles s), files := files1\<rparr>,
                ''Style '' @ quoted style_name @ '' added to profile '' @
                quoted profile_name @ ''.''))"

text \<open>The lookups.\<close>

definition get_sample_path :: "'a store \<Rightarrow> string \<Rightarrow> string \<Rightarrow> string option" where
  "get_sample_path s profile_name sample_name =
     (case map_of (profiles s) profile_name of
        None \<Rightarrow> None
      | Some p \<Rightarrow>
          (case map_of (samples p) sample_name of
             None \<Rightarrow> None
           | Some x \<Rightarrow> Some (sample_path x)))"

definition get_transcription :: "'a store \<Rightarrow> string \<Rightarrow> string \<Rightarrow> string" where
  "get_transcription s profile_name sample_name =
     (case map_of (profiles s) profile_name of
        None \<Rightarrow> []
      | Some p \<Rightarrow>
          (case map_of (samples p) sample_name of
             None \<Rightarrow> []
           | Some x \<Rightarrow> sample_transcription x))"

definition get_style_sample :: "'a store \<Rightarrow> string \<Rightarrow> string \<Rightarrow> string option" where
  "get_style_sample s profile_name style_name =
     (case map_of (profiles s) profile_name of
        None \<Rightarrow> None
      | Some p \<Rightarrow>
          (case map_of (styles p) style_name of
             None \<Rightarrow> None
           | Some x \<Rightarrow> Some (style_sample x)))"

definition list_profiles :: "'a store \<Rightarrow> string list" where
  "list_profiles s = map fst (profiles s)"

definition list_samples :: "'a store \<Rightarrow> string \<Rightarrow> string list" where
  "list_samples s profile_name =
     (case map_of (profiles s) profile_name of
        None \<Rightarrow> []
      | Some p \<Rightarrow> map fst (samples p))"

definition list_styles :: "'a store \<Rightarrow> string \<Rightarrow> string list" where
  "list_styles s profile_name =
     (case map_of (profiles s) profile_name of
        None \<Rightarrow> []
      | Some p \<Rightarrow> map fst (styles p))"

text \<open>
  \<^verbatim>\<open>VoiceProfileManager.save_output\<close>.  The clock is read twice: for the file name
  and for the \<^verbatim>\<open>created_at\<close> of the metadata.
\<close>

definition output_filename :: "string \<Rightarrow> struct_time \<Rightarrow> string" where
  "output_filename output_name now = replace_spaces output_name @ ''_'' @ strftime_compact now @ ''.wav''"

text \<open>The part of the file name after the output name.\<close>

definition file_suffix :: "struct_time \<Rightarrow> string" where
  "file_suffix t = ''_'' @ strftime_compact t @ ''.wav''"

text \<open>A clock reading within the ranges of \<^verbatim>\<open>time.struct_time\<close>.\<close>

definition valid_time :: "struct_time \<Rightarrow> bool" where
  "valid_time t =
     (1 \<le> tm_mon t \<and> tm_mon t \<le> 12 \<and> 1 \<le> tm_mday t \<and> tm_mday t \<le> 31 \<and>
      tm_hour t < 24 \<and> tm_min t < 60 \<and> tm_sec t \<le> 61)"

definition save_output ::
  "'a store \<Rightarrow> string \<Rightarrow> string \<Rightarrow> 'a \<Rightarrow> nat \<Rightarrow> string \<Rightarrow> string \<Rightarrow> struct_time \<Rightarrow> struct_time
     \<Rightarrow> 'a store \<times> string" where
  "save_output s profile_name output_name audio_data sr txt style_name now now' =
     (case map_of (profiles s) profile_name of
        None \<Rightarrow> (s, ''Profile '' @ quoted profile_name @ '' does not exist.'')
      | Some p \<Rightarrow>
          let profile_dir = joinpath (profiles_dir s) profile_name;
              outputs_dir = joinpath profile_dir ''outputs'';
              output_file = joinpath outputs_dir (output_filename output_name now);
              files1 = (files s)(output_file \<mapsto> Audio audio_data sr);
              outs = (case outputs p of None \<Rightarrow> [] | Some os \<Rightarrow> os);
              p' = p\<lparr>outputs := Some
                     (AList.update output_name
                        \<lparr>output_path = path_str output_file, output_text = txt,
                         output_style = style_name, output_created_at = strftime_iso now'\<rparr>
                        outs)\<rparr>;
              files2 = files1(joinpath profile_dir ''profile.json'' \<mapsto> Manifest p')
          in (s\<lparr>profiles := AList.update profile_name p' (profiles s), files := files2\<rparr>,
              path_str output_file))"

text \<open>
  The stores that the operations build from a manager that has loaded no profile.
\<close>

inductive reachable :: "'a store \<Rightarrow> bool" where
  fresh: "profiles s = [] \<Longrightarrow> reachable s"
| created: "reachable s \<Longrightarrow> reachable (fst (create_profile s nm descr now))"
| sample_added: "reachable s \<Longrightarrow> reachable (fst (add_sample s pn sn audio_path tr now))"
| style_added: "reachable s \<Longrightarrow> reachable (fst (add_style s pn st sn now))"
| output_saved: "reachable s \<Longrightarrow> reachable (fst (save_output s pn out a sr txt st now now'))"

definition styles_linked :: "profile \<Rightarrow> bool" where
  "styles_linked p = (\<forall>(st, x)\<in>set (styles p). map_of (samples p) (style_sample x) \<noteq> None)"

definition store_inv :: "'a store \<Rightarrow> bool" where
  "store_inv s = (\<forall>(pn, p)\<in>set (profiles s). styles_linked p)"

text \<open>No profile and no sample key of \<open>s\<close> is missing in \<open>s'\<close>.\<close>

definition keeps_samples :: "'a store \<Rightarrow> 'a store \<Rightarrow> bool" where
  "keeps_samples s s' =
     (\<forall>q p. map_of (profiles s) q = Some p \<longrightarrow>
        (\<exists>p'. map_of (profiles s') q = Some p' \<and> fst ` set (samples p) \<subseteq> fst ` set (samples p')))"

text \<open>A store and clock readings for the worked examples.\<close>

definition example_time :: "nat \<Rightarrow> struct_time" where
  "example_time sec =
     \<lparr>tm_year = 2024, tm_mon = 3, tm_mday = 9, tm_hour = 14, tm_min = 5, tm_sec = sec\<rparr>"

definition empty_store :: "int list store" where
  "empty_store =
     \<lparr>profiles_dir = Path ''voice_profiles'', current_profile = None, profiles = [],
      dirs = {Path ''voice_profiles''},
      files = [Path ''/tmp/upload.wav'' \<mapsto> Audio [1, 2, 3] 24000]\<rparr>"

definition alice_store :: "int list store" where
  "alice_store = fst (create_profile empty_store ''alice'' ''my voice'' (example_time 0))"

definition sampled_store :: "int list store" where
  "sampled_store =
     fst (add_sample alice_store ''alice'' ''calm voice'' ''/tmp/upload.wav'' ''hello there''
            (example_time 10))"

definition styled_store :: "int list store" where
  "styled_store = fst (add_style sampled_store ''alice'' ''Calm'' ''calm voice'' (example_time 20))"

text \<open>Two saves under one output name: within the same second, and a second apart.\<close>

definition first_take :: "int list store \<times> string" where
  "first_take =
     save_output alice_store ''alice'' ''take 1'' [1, 2] 24000 ''hi'' ''default''
       (example_time 30) (example_time 30)"

definition same_second_take :: "int list store \<times> string" where
  "same_second_take =
     save_output (fst first_take) ''alice'' ''take 1'' [3, 4] 24000 ''ho'' ''Calm''
       (example_time 30) (example_time 30)"

definition later_take :: "int list store \<times> string" where
  "later_take =
     save_output (fst first_take) ''alice'' ''take 1'' [3, 4] 24000 ''ho'' ''Calm''
       (example_time 31) (example_time 31)"

section \<open>SynthesisFacade\<close>

text \<open>
  The external calls: \<^verbatim>\<open>preprocess_ref_audio_text\<close>, \<^verbatim>\<open>infer_process\<close> (with the
  loaded model and the vocoder; it gives a one-dimensional wave and its sample rate), and
  the three calls on the temporary file: \<^verbatim>\<open>sf.write\<close>, which gives the file its
  content, \<^verbatim>\<open>remove_silence_for_generated_wav\<close>, which rewrites the file in place,
  and \<^verbatim>\<open>torchaudio.load\<close>, which reads the file, a mono one, into a tensor of one
  row, given here by that row, and its sample rate.
\<close>

record ('r, 'w, 'f) engine =
  preprocess_ref_audio_text :: "string \<Rightarrow> string \<Rightarrow> 'r \<times> string"
  infer_process :: "'r \<Rightarrow> string \<Rightarrow> string \<Rightarrow> 'w list \<times> nat"
  sf_write :: "'w list \<Rightarrow> nat \<Rightarrow> 'f"
  remove_silence_for_generated_wav :: "'f \<Rightarrow> 'f"
  torchaudio_load :: "'f \<Rightarrow> 'w list \<times> nat"

text \<open>
  A numpy array of samples, zero-dimensional (one sample and no axis) or one-dimensional.
\<close>

datatype 'w ndarray = Array0 'w | Array1 "'w list"

fun one_dimensional :: "'w ndarray \<Rightarrow> bool" where
  "one_dimensional (Array0 x) = False"
| "one_dimensional (Array1 w) = True"

fun array_samples :: "'w ndarray \<Rightarrow> 'w list" where
  "array_samples (Array0 x) = [x]"
| "array_samples (Array1 w) = w"

text \<open>
  \<^verbatim>\<open>segment_wave.squeeze().cpu().numpy()\<close> on a tensor of one row: every axis of
  length one is dropped, so a row of a single frame is left without axis.
\<close>

definition squeeze :: "'w list \<Rightarrow> 'w ndarray" where
  "squeeze segment_wave = (case segment_wave of [x] \<Rightarrow> Array0 x | _ \<Rightarrow> Array1 segment_wave)"

text \<open>
  \<^verbatim>\<open>np.concatenate(arrays)\<close> raises \<^verbatim>\<open>ValueError\<close> on an empty list and on a
  zero-dimensional array; one-dimensional arrays are appended.
\<close>

definition np_concatenate :: "'w ndarray list \<Rightarrow> error + 'w list" where
  "np_concatenate arrays =
     (if arrays = [] then Inl (ValueError ''need at least one array to concatenate'')
      else if \<exists>a\<in>set arrays. \<not> one_dimensional a
      then Inl (ValueError ''zero-dimensional arrays cannot be concatenated'')
      else Inr (concat (map array_samples arrays)))"

text \<open>
  An entry of \<^verbatim>\<open>style_to_sample_map\<close> is a dict with the keys \<^verbatim>\<open>"path"\<close> and
  \<^verbatim>\<open>"transcription"\<close>, or a value that Python takes for false (\<^verbatim>\<open>None\<close>, the
  empty dict), written \<open>None\<close>.
\<close>

record sample_info =
  info_path :: string
  info_transcription :: string

type_synonym style_map = "(string \<times> sample_info option) list"

text \<open>
  The first lines of the loop body: the style falls back to \<^verbatim>\<open>"default"\<close> when it
  is not a key of the map, and \<^verbatim>\<open>style_to_sample_map.get(style)\<close> is read.
\<close>

definition resolve_style :: "style_map \<Rightarrow> string \<Rightarrow> sample_info option" where
  "resolve_style m style_name =
     (let style_name' = (if map_of m style_name = None then ''default'' else style_name)
      in case map_of m style_name' of None \<Rightarrow> None | Some sample_info \<Rightarrow> sample_info)"

text \<open>
  The rest of the loop body, for a segment that is not skipped: one call of
  \<^verbatim>\<open>preprocess_ref_audio_text\<close>, one of \<^verbatim>\<open>infer_process\<close>, and, when the removal
  of silence is asked for, the round trip through the temporary file and the squeeze of
  the tensor read back.  It gives the array appended to \<^verbatim>\<open>generated_segments\<close>, the
  sample rate and, for the count of invocations, the arguments of the call of
  \<^verbatim>\<open>infer_process\<close>.
\<close>

definition synthesize_one ::
  "('r, 'w, 'f) engine \<Rightarrow> bool \<Rightarrow> sample_info \<Rightarrow> string
     \<Rightarrow> 'w ndarray \<times> nat \<times> ('r \<times> string \<times> string)" where
  "synthesize_one E remove_silence sample_info txt =
     (let (ref_audio, ref_text) =
            preprocess_ref_audio_text E (info_path sample_info) (info_transcription sample_info);
          (audio_wave, sample_rate) = infer_process E ref_audio ref_text txt;
          audio_wave' =
            (if remove_silence
             then let f = sf_write E audio_wave sample_rate;
                      f' = remove_silence_for_generated_wav E f;
                      (segment_wave, _) = torchaudio_load E f'
                  in squeeze segment_wave
             else Array1 audio_wave)
      in (audio_wave', sample_rate, (ref_audio, ref_text, txt)))"

text \<open>
  The loop over the segments.  Its state is \<^verbatim>\<open>generated_segments\<close>, the variable
  \<^verbatim>\<open>sample_rate\<close> (unbound before the first synthesis) and the calls of the engine
  so far.
\<close>

fun synthesize_segments ::
  "('r, 'w, 'f) engine \<Rightarrow> style_map \<Rightarrow> bool \<Rightarrow> (string \<times> string) list
     \<Rightarrow> 'w ndarray list \<times> nat option \<times> ('r \<times> string \<times> string) list
     \<Rightarrow> 'w ndarray list \<times> nat option \<times> ('r \<times> string \<times> string) list" where
  "synthesize_segments E m remove_silence [] acc = acc"
| "synthesize_segments E m remove_silence ((style_name, txt) # segments)
       (generated_segments, sample_rate, calls) =
     (case resolve_style m style_name of
        None \<Rightarrow>
          synthesize_segments E m remove_silence segments (generated_segments, sample_rate, calls)
      | Some sample_info \<Rightarrow>
          let (audio_wave, rate, call) = synthesize_one E remove_silence sample_info txt
          in synthesize_segments E m remove_silence segments
               (generated_segments @ [audio_wave], Some rate, calls @ [call]))"

text \<open>
  \<^verbatim>\<open>VoiceCloner.generate_multi_style_speech\<close>: the pair of sample rate and audio, or
  \<open>None\<close> for the pair \<^verbatim>\<open>(None, None)\<close>, or the exception raised; beside it the
  calls of the engine.
\<close>

definition generate_multi_style_speech ::
  "('r, 'w, 'f) engine \<Rightarrow> string \<Rightarrow> style_map \<Rightarrow> bool
     \<Rightarrow> (error + (nat \<times> 'w list) option) \<times> ('r \<times> string \<times> string) list" where
  "generate_multi_style_speech E text_with_styles m remove_silence =
     (let segments = parse_style_segments text_with_styles;
          (generated_segments, sample_rate, calls) =
             synthesize_segments E m remove_silence segments ([], None, [])
      in (if generated_segments \<noteq> []
          then (case np_concatenate generated_segments of
                  Inl e \<Rightarrow> Inl e
                | Inr final_audio \<Rightarrow>
                    (case sample_rate of
                       None \<Rightarrow> Inl (UnboundLocalError ''sample_rate'')
                     | Some rate \<Rightarrow> Inr (Some (rate, final_audio))))
          else Inr None,
          calls))"


text \<open>The segments that are not skipped, each with the entry it resolves to.\<close>

definition remaining_segments :: "style_map \<Rightarrow> (string \<times> string) list \<Rightarrow> (sample_info \<times> string) list" where
  "remaining_segments m segments =
     concat (map (\<lambda>(style_name, txt).
                    case resolve_style m style_name of None \<Rightarrow> [] | Some i \<Rightarrow> [(i, txt)])
               segments)"

text \<open>
  An engine for the worked examples: the wave of a text is the list of its character
  codes, the file holds the wave and the rate, and the removal of silence drops the
  blanks.
\<close>

definition example_engine :: "(string, int, int list \<times> nat) engine" where
  "example_engine =
     \<lparr>preprocess_ref_audio_text = (\<lambda>ref_path ref_text. (ref_path, ref_text)),
      infer_process = (\<lambda>ref_audio ref_text txt. (map (\<lambda>c. int (of_char c)) txt, 24000)),
      sf_write = (\<lambda>wave rate. (wave, rate)),
      remove_silence_for_generated_wav = (\<lambda>f. (filter (\<lambda>x. x \<noteq> 32) (fst f), snd f)),
      torchaudio_load = (\<lambda>f. f)\<rparr>"

definition example_map :: style_map where
  "example_map =
     [(''Calm'', Some \<lparr>info_path = ''calm.wav'', info_transcription = ''so calm''\<rparr>),
      (''Empty'', None),
      (''default'', Some \<lparr>info_path = ''plain.wav'', info_transcription = ''plain''\<rparr>)]"

section \<open>Properties of the segmenter\<close>

subsection \<open>Scanning\<close>

lemma dropWhile_neq_append:
  "c \<notin> set xs \<Longrightarrow> dropWhile (\<lambda>x. x \<noteq> c) (xs @ ys) = dropWhile (\<lambda>x. x \<noteq> c) ys"
  by (induction xs) auto

lemma takeWhile_neq_append:
  "c \<notin> set xs \<Longrightarrow> takeWhile (\<lambda>x. x \<noteq> c) (xs @ ys) = xs @ takeWhile (\<lambda>x. x \<noteq> c) ys"
  by (induction xs) auto

lemma dropWhile_neq_none: "c \<notin> set xs \<Longrightarrow> dropWhile (\<lambda>x. x \<noteq> c) xs = []"
  by (induction xs) auto

lemma takeWhile_neq_notin: "c \<notin> set (takeWhile (\<lambda>x. x \<noteq> c) xs)"
  by (induction xs) auto

lemma split_at_first:
  "c \<in> set xs \<Longrightarrow> xs = takeWhile (\<lambda>x. x \<noteq> c) xs @ c # tl (dropWhile (\<lambda>x. x \<noteq> c) xs)"
  by (induction xs) auto

lemma dropWhile_all: "\<forall>c\<in>set w. P c \<Longrightarrow> dropWhile P w = []"
  by (induction w) auto

lemma dropWhile_Nil_all: "dropWhile P w = [] \<Longrightarrow> \<forall>c\<in>set w. P c"
  by (induction w) (auto split: if_splits)

lemma render_Nil: "render [] = []"
  by (simp add: render_def)

lemma render_Cons: "render ((a, c) # ms) = CHR ''{'' # a @ CHR ''}'' # c @ render ms"
  by (simp add: render_def)

lemma render_append: "render (xs @ ys) = render xs @ render ys"
  by (simp add: render_def)

lemma findall_skip: "CHR ''{'' \<notin> set pre \<Longrightarrow> findall_markers (pre @ s) = findall_markers s"
  by (subst findall_markers.simps, subst (2) findall_markers.simps)
     (simp add: dropWhile_neq_append)

lemma findall_one:
  assumes "CHR ''}'' \<notin> set a" "CHR ''{'' \<notin> set c"
  shows "findall_markers (CHR ''{'' # a @ CHR ''}'' # c @ CHR ''{'' # rest)
         = (a, c) # findall_markers (CHR ''{'' # rest)"
  using assms
  by (subst findall_markers.simps) (simp add: dropWhile_neq_append takeWhile_neq_append)

lemma findall_unclosed: "CHR ''}'' \<notin> set t \<Longrightarrow> findall_markers (CHR ''{'' # t) = []"
  by (subst findall_markers.simps) (simp add: dropWhile_neq_none)

lemma render_brace: "\<exists>rest'. render ms @ CHR ''{'' # rest = CHR ''{'' # rest'"
  by (cases ms) (auto simp: render_Nil render_Cons)

lemma findall_render:
  assumes "\<forall>m\<in>set ms. wf_marker m"
  shows "findall_markers (render ms @ CHR ''{'' # rest) = ms @ findall_markers (CHR ''{'' # rest)"
  using assms
proof (induction ms)
  case Nil
  then show ?case by (simp add: render_Nil)
next
  case (Cons m ms)
  obtain a c where m: "m = (a, c)" by (cases m)
  from Cons.prems have wf: "CHR ''}'' \<notin> set a" "CHR ''{'' \<notin> set c"
    and rest: "\<forall>m\<in>set ms. wf_marker m"
    by (simp_all add: m wf_marker_def)
  obtain rest' where r: "render ms @ CHR ''{'' # rest = CHR ''{'' # rest'"
    using render_brace by blast
  have "findall_markers (render (m # ms) @ CHR ''{'' # rest)
        = findall_markers (CHR ''{'' # a @ CHR ''}'' # c @ CHR ''{'' # rest')"
    by (simp add: render_Cons m r)
  also have "\<dots> = (a, c) # findall_markers (CHR ''{'' # rest')"
    by (rule findall_one [OF wf])
  also have "findall_markers (CHR ''{'' # rest') = ms @ findall_markers (CHR ''{'' # rest)"
    using Cons.IH [OF rest] by (simp add: r)
  finally show ?case by (simp add: m)
qed

text \<open>The matches of a text of the shape above are its markers.\<close>

lemma findall_text:
  assumes "CHR ''{'' \<notin> set pre" "\<forall>m\<in>set ms. wf_marker m" "unclosed tail"
  shows "findall_markers ((pre @ render ms @ tail) @ ''{'') = ms"
proof -
  have "findall_markers ((pre @ render ms @ tail) @ ''{'')
        = findall_markers (render ms @ tail @ ''{'')"
    using assms(1) by (simp add: findall_skip)
  also have "\<dots> = ms"
  proof (cases tail)
    case Nil
    then show ?thesis
      using findall_render [OF assms(2), of "[]"] by (simp add: findall_unclosed)
  next
    case (Cons c t)
    with assms(3) have c: "c = CHR ''{''" and t: "CHR ''}'' \<notin> set t"
      by (simp_all add: unclosed_def)
    have "findall_markers (CHR ''{'' # t @ ''{'') = []"
      using t by (intro findall_unclosed) simp
    then show ?thesis
      using findall_render [OF assms(2), of "t @ ''{''"] by (simp add: Cons c)
  qed
  finally show ?thesis .
qed

text \<open>Every text has that shape, so the statements below leave no input out.\<close>

lemma decompose_from_brace:
  "\<exists>ms tail. (\<forall>m\<in>set ms. wf_marker m) \<and> unclosed tail \<and> CHR ''{'' # s = render ms @ tail"
proof (induction "length s" arbitrary: s rule: less_induct)
  case less
  show ?case
  proof (cases "CHR ''}'' \<in> set s")
    case False
    then have "unclosed (CHR ''{'' # s)" by (simp add: unclosed_def)
    then show ?thesis
      by (intro exI [of _ "[]"] exI [of _ "CHR ''{'' # s"]) (simp add: render_Nil)
  next
    case True
    define a where "a = takeWhile (\<lambda>x. x \<noteq> CHR ''}'') s"
    define r where "r = tl (dropWhile (\<lambda>x. x \<noteq> CHR ''}'') s)"
    define c where "c = takeWhile (\<lambda>x. x \<noteq> CHR ''{'') r"
    have s: "s = a @ CHR ''}'' # r"
      unfolding a_def r_def by (rule split_at_first [OF True])
    have wf: "wf_marker (a, c)"
      unfolding wf_marker_def a_def c_def by (simp add: takeWhile_neq_notin)
    show ?thesis
    proof (cases "CHR ''{'' \<in> set r")
      case False
      then have "c = r" unfolding c_def by (induction r) auto
      then have "CHR ''{'' # s = render [(a, c)] @ []"
        using s by (simp add: render_Cons render_Nil)
      moreover have "unclosed []" by (simp add: unclosed_def)
      ultimately show ?thesis using wf
        by (intro exI [of _ "[(a, c)]"] exI [of _ "[]"]) simp
    next
      case True
      define t where "t = tl (dropWhile (\<lambda>x. x \<noteq> CHR ''{'') r)"
      have r: "r = c @ CHR ''{'' # t"
        unfolding c_def t_def by (rule split_at_first [OF True])
      have "length t < length s" by (subst s, subst r) simp
      from less [OF this] obtain ms tail where
        ms: "\<forall>m\<in>set ms. wf_marker m" "unclosed tail" "CHR ''{'' # t = render ms @ tail"
        by blast
      have "CHR ''{'' # s = CHR ''{'' # a @ CHR ''}'' # c @ CHR ''{'' # t"
        by (subst s, subst r) simp
      then have "CHR ''{'' # s = render ((a, c) # ms) @ tail"
        using ms(3) by (simp add: render_Cons)
      then show ?thesis using wf ms(1,2)
        by (intro exI [of _ "(a, c) # ms"] exI [of _ tail]) simp
    qed
  qed
qed

lemma decompose_text:
  "\<exists>pre ms tail. CHR ''{'' \<notin> set pre \<and> (\<forall>m\<in>set ms. wf_marker m) \<and> unclosed tail
     \<and> txt = pre @ render ms @ tail"
proof (cases "CHR ''{'' \<in> set txt")
  case False
  then show ?thesis
    by (intro exI [of _ "txt"] exI [of _ "[]"]) (simp add: render_Nil unclosed_def)
next
  case True
  define pre where "pre = takeWhile (\<lambda>x. x \<noteq> CHR ''{'') txt"
  define s where "s = tl (dropWhile (\<lambda>x. x \<noteq> CHR ''{'') txt)"
  have t: "txt = pre @ CHR ''{'' # s"
    unfolding pre_def s_def by (rule split_at_first [OF True])
  have p: "CHR ''{'' \<notin> set pre" unfolding pre_def by (simp add: takeWhile_neq_notin)
  from decompose_from_brace [of s] obtain ms tail where
    "\<forall>m\<in>set ms. wf_marker m" "unclosed tail" "CHR ''{'' # s = render ms @ tail" by blast
  with t p show ?thesis by (intro exI [of _ pre] exI [of _ ms] exI [of _ tail]) simp
qed

subsection \<open>Stripping and collecting\<close>

lemma collect_segments_append:
  "collect_segments (xs @ ys) = collect_segments xs @ collect_segments ys"
  by (induction xs rule: collect_segments.induct) auto

lemma collect_segments_filter:
  "collect_segments ms =
     filter (\<lambda>(style, content). content \<noteq> [])
       (map (\<lambda>(style, content). (strip style, strip content)) ms)"
  by (induction ms rule: collect_segments.induct) auto

lemma collect_segments_content:
  "(style, content) \<in> set (collect_segments ms) \<Longrightarrow> content \<noteq> []"
  by (induction ms rule: collect_segments.induct) (auto split: if_splits)

lemma collect_segments_nonempty:
  "\<exists>m\<in>set ms. strip (snd m) \<noteq> [] \<Longrightarrow> collect_segments ms \<noteq> []"
  by (induction ms rule: collect_segments.induct) auto

lemma strip_blank: "\<forall>c\<in>set w. isspace c \<Longrightarrow> strip w = []"
proof -
  assume "\<forall>c\<in>set w. isspace c"
  then have d: "dropWhile isspace w = []" by (rule dropWhile_all)
  show ?thesis unfolding strip_def d by simp
qed

lemma strip_Nil_blank: "strip w = [] \<Longrightarrow> \<forall>c\<in>set w. isspace c"
proof -
  assume s: "strip w = []"
  have "dropWhile isspace w = []"
  proof (rule ccontr)
    assume n: "dropWhile isspace w \<noteq> []"
    then have "\<not> isspace (hd (dropWhile isspace w))" by (rule hd_dropWhile)
    moreover have "hd (dropWhile isspace w) \<in> set (rev (dropWhile isspace w))"
      using n by simp
    moreover from s have "dropWhile isspace (rev (dropWhile isspace w)) = []"
      unfolding strip_def by (simp only: rev_is_Nil_conv)
    then have "\<forall>x\<in>set (rev (dropWhile isspace w)). isspace x"
      by (rule dropWhile_Nil_all)
    ultimately show False by blast
  qed
  then show ?thesis by (rule dropWhile_Nil_all)
qed

lemma brace_not_space: "\<not> isspace CHR ''{''"
  by (simp add: isspace_def)

lemma blank_no_brace: "\<forall>c\<in>set w. isspace c \<Longrightarrow> CHR ''{'' \<notin> set w"
  using brace_not_space by blast

text \<open>What the segmenter returns on a text of the shape above.\<close>

lemma parse_decomposed:
  assumes "CHR ''{'' \<notin> set pre" "\<forall>m\<in>set ms. wf_marker m" "unclosed tail"
  shows "parse_style_segments (pre @ render ms @ tail) =
           (if collect_segments ms = [] \<and> strip (pre @ render ms @ tail) \<noteq> []
            then [(''default'', strip (pre @ render ms @ tail))]
            else collect_segments ms)"
  unfolding parse_style_segments_def findall_text [OF assms]
  by (simp add: Let_def)

text \<open>
  A text has no marker exactly when no opening brace of it has a closing brace after it.
\<close>

lemma dropWhile_has_closing:
  "CHR ''}'' \<in> set (dropWhile (\<lambda>x. x \<noteq> CHR ''{'') (u @ CHR ''{'' # a @ CHR ''}'' # v))"
  by (induction u) auto

lemma no_marker_iff:
  "findall_markers (txt @ ''{'') = [] \<longleftrightarrow> \<not> (\<exists>u a v. txt = u @ CHR ''{'' # a @ CHR ''}'' # v)"
proof -
  obtain pre ms tail where d: "CHR ''{'' \<notin> set pre" "\<forall>m\<in>set ms. wf_marker m" "unclosed tail"
      "txt = pre @ render ms @ tail"
    using decompose_text by blast
  have f: "findall_markers (txt @ ''{'') = ms"
    unfolding d(4) by (rule findall_text [OF d(1-3)])
  show ?thesis
  proof (cases ms)
    case (Cons m ms')
    obtain a c where "m = (a, c)" by (cases m)
    then have "txt = pre @ CHR ''{'' # a @ CHR ''}'' # (c @ render ms' @ tail)"
      by (simp add: d(4) Cons render_Cons)
    then have "\<exists>u a v. txt = u @ CHR ''{'' # a @ CHR ''}'' # v" by blast
    then show ?thesis by (simp add: f Cons)
  next
    case Nil
    have "\<not> (\<exists>u a v. txt = u @ CHR ''{'' # a @ CHR ''}'' # v)"
    proof
      assume "\<exists>u a v. txt = u @ CHR ''{'' # a @ CHR ''}'' # v"
      then obtain u a v where t: "txt = u @ CHR ''{'' # a @ CHR ''}'' # v" by blast
      have "CHR ''}'' \<in> set (dropWhile (\<lambda>x. x \<noteq> CHR ''{'') txt)"
        unfolding t by (rule dropWhile_has_closing)
      moreover have "dropWhile (\<lambda>x. x \<noteq> CHR ''{'') txt = tail"
        using d(1,3)
        by (cases tail)
           (simp_all add: d(4) Nil render_Nil dropWhile_neq_append dropWhile_neq_none unclosed_def)
      ultimately show False using d(3) by (cases tail) (auto simp: unclosed_def)
    qed
    then show ?thesis by (simp add: f Nil)
  qed
qed

subsection \<open>Claims on the segmenter\<close>

text \<open>
  C4, as stated: one segment for every marker.  It fails where a marker has no content:
  the text below has two markers and one segment.
\<close>

theorem segment_per_marker_counterexample:
  "findall_markers (''{A} {B} world'' @ ''{'') = [(''A'', '' ''), (''B'', '' world'')]
   \<and> parse_style_segments ''{A} {B} world'' = [(''B'', ''world'')]
   \<and> length (parse_style_segments ''{A} {B} world'')
       \<noteq> length (findall_markers (''{A} {B} world'' @ ''{''))"
  by (simp add: parse_style_segments_def findall_markers.simps strip_def isspace_def)

text \<open>
  C4, amended: when at least one marker has content other than whitespace, the segments
  are the markers whose stripped content is not empty, in the order of the text, each
  with its style name and its content stripped; and
  \<open>segment("{A} hello {B} world") = [("A","hello"), ("B","world")]\<close>.
\<close>

theorem segment_markers_in_order:
  assumes "CHR ''{'' \<notin> set pre" and "\<forall>m\<in>set ms. wf_marker m" and "unclosed tail"
    and "\<exists>m\<in>set ms. strip (snd m) \<noteq> []"
  shows "parse_style_segments (pre @ render ms @ tail) =
           filter (\<lambda>(style, content). content \<noteq> [])
             (map (\<lambda>(style, content). (strip style, strip content)) ms)
         \<and> parse_style_segments ''{A} hello {B} world'' = [(''A'', ''hello''), (''B'', ''world'')]"
proof
  from assms(4) have "collect_segments ms \<noteq> []"
    by (rule collect_segments_nonempty)
  then show "parse_style_segments (pre @ render ms @ tail) =
           filter (\<lambda>(style, content). content \<noteq> [])
             (map (\<lambda>(style, content). (strip style, strip content)) ms)"
    by (simp add: parse_decomposed [OF assms(1-3)] collect_segments_filter)
  show "parse_style_segments ''{A} hello {B} world'' = [(''A'', ''hello''), (''B'', ''world'')]"
    by code_simp
qed

theorem segment_markers_in_order_witness:
  "parse_style_segments ''intro {A} hello {B}  {C} world {D'' =
     [(''A'', ''hello''), (''C'', ''world'')]"
proof -
  have 1: "CHR ''{'' \<notin> set ''intro ''" by simp
  have 2: "\<forall>m\<in>set [(''A'', '' hello ''), (''B'', ''  ''), (''C'', '' world '')]. wf_marker m"
    by (simp add: wf_marker_def)
  have 3: "unclosed ''{D''" by (simp add: unclosed_def)
  have 4: "\<exists>m\<in>set [(''A'', '' hello ''), (''B'', ''  ''), (''C'', '' world '')]. strip (snd m) \<noteq> []"
    by (simp add: strip_def isspace_def)
  show ?thesis
    using segment_markers_in_order [OF 1 2 3 4]
    by (simp add: render_def strip_def isspace_def)
qed

text \<open>
  C6: a text without marker (no opening brace of it has a closing brace after it, which
  by \<open>no_marker_iff\<close> is to say that the pattern has no match) and with content other
  than whitespace gives the single segment of style \<open>default\<close> with the stripped text;
  \<open>segment("no markers here") = [("default","no markers here")]\<close>; an empty or
  whitespace-only text gives no segment.
\<close>

theorem segment_without_markers:
  "(\<not> (\<exists>u a v. txt = u @ CHR ''{'' # a @ CHR ''}'' # v) \<and> strip txt \<noteq> []
      \<longrightarrow> parse_style_segments txt = [(''default'', strip txt)])
   \<and> parse_style_segments ''no markers here'' = [(''default'', ''no markers here'')]
   \<and> ((\<forall>c\<in>set txt. isspace c) \<longrightarrow> parse_style_segments txt = [])"
proof (intro conjI impI)
  assume "\<not> (\<exists>u a v. txt = u @ CHR ''{'' # a @ CHR ''}'' # v) \<and> strip txt \<noteq> []"
  then have "findall_markers (txt @ ''{'') = []" and "strip txt \<noteq> []"
    by (simp_all add: no_marker_iff)
  then show "parse_style_segments txt = [(''default'', strip txt)]"
    by (simp add: parse_style_segments_def)
next
  show "parse_style_segments ''no markers here'' = [(''default'', ''no markers here'')]"
    by code_simp
next
  assume b: "\<forall>c\<in>set txt. isspace c"
  then have "findall_markers (txt @ ''{'') = findall_markers ''{''"
    by (intro findall_skip blank_no_brace)
  also have "\<dots> = []" by (rule findall_unclosed) simp
  finally show "parse_style_segments txt = []"
    using strip_blank [OF b] by (simp add: parse_style_segments_def)
qed

theorem segment_without_markers_witness:
  "parse_style_segments '' a { b '' = [(''default'', ''a { b'')]
   \<and> parse_style_segments [CHR '' '', CHR 0x09, CHR 0x0A] = []"
proof -
  have "findall_markers ('' a { b '' @ ''{'') = []"
    by (simp add: findall_markers.simps)
  then have 1: "\<not> (\<exists>u a v. '' a { b '' = u @ CHR ''{'' # a @ CHR ''}'' # v)"
    using no_marker_iff [of "'' a { b ''"] by blast
  have 2: "strip '' a { b '' = ''a { b''"
    by (simp add: strip_def isspace_def)
  have 3: "\<forall>c\<in>set [CHR '' '', CHR 0x09, CHR 0x0A]. isspace c"
    by (simp add: isspace_def)
  show ?thesis
    using segment_without_markers [of "'' a { b ''"]
      segment_without_markers [of "[CHR '' '', CHR 0x09, CHR 0x0A]"] 1 2 3
    by simp
qed

text \<open>
  C7: a marker whose content, up to the next opening brace, is empty or whitespace
  contributes no segment: the list collected from the matches is the one collected from
  the other markers, no segment of the result has the marker's style with its (empty)
  content, and when another marker has content the result is what the other markers
  give; \<open>segment("{A}{B} text") = [("B","text")]\<close>.
\<close>

theorem segment_empty_marker_dropped:
  assumes "CHR ''{'' \<notin> set pre" and "\<forall>m\<in>set ms1. wf_marker m" and "CHR ''}'' \<notin> set a"
    and "\<forall>c\<in>set w. isspace c" and "\<forall>m\<in>set ms2. wf_marker m" and "unclosed tail"
  shows "collect_segments (findall_markers ((pre @ render (ms1 @ (a, w) # ms2) @ tail) @ ''{''))
           = collect_segments (ms1 @ ms2)
         \<and> (strip a, strip w) \<notin> set (parse_style_segments (pre @ render (ms1 @ (a, w) # ms2) @ tail))
         \<and> (collect_segments (ms1 @ ms2) \<noteq> [] \<longrightarrow>
              parse_style_segments (pre @ render (ms1 @ (a, w) # ms2) @ tail)
                = collect_segments (ms1 @ ms2))
         \<and> parse_style_segments ''{A}{B} text'' = [(''B'', ''text'')]"
proof (intro conjI)
  let ?ms = "ms1 @ (a, w) # ms2"
  have wf: "\<forall>m\<in>set ?ms. wf_marker m"
    using assms(2,3,5) blank_no_brace [OF assms(4)] by (auto simp: wf_marker_def)
  have c: "collect_segments ?ms = collect_segments (ms1 @ ms2)"
    using strip_blank [OF assms(4)] by (simp add: collect_segments_append)
  show "collect_segments (findall_markers ((pre @ render ?ms @ tail) @ ''{''))
          = collect_segments (ms1 @ ms2)"
    by (simp only: findall_text [OF assms(1) wf assms(6)] c)
  have p: "parse_style_segments (pre @ render ?ms @ tail) =
           (if collect_segments (ms1 @ ms2) = [] \<and> strip (pre @ render ?ms @ tail) \<noteq> []
            then [(''default'', strip (pre @ render ?ms @ tail))]
            else collect_segments (ms1 @ ms2))"
    by (simp only: parse_decomposed [OF assms(1) wf assms(6)] c)
  show "(strip a, strip w) \<notin> set (parse_style_segments (pre @ render ?ms @ tail))"
    using strip_blank [OF assms(4)] collect_segments_content [of "strip a" "[]" "ms1 @ ms2"]
    by (auto simp: p)
  show "collect_segments (ms1 @ ms2) \<noteq> [] \<longrightarrow>
         parse_style_segments (pre @ render ?ms @ tail) = collect_segments (ms1 @ ms2)"
    by (simp add: p)
  show "parse_style_segments ''{A}{B} text'' = [(''B'', ''text'')]"
    by code_simp
qed

theorem segment_empty_marker_dropped_witness:
  "parse_style_segments ''x {A} one {B}  {C} three'' = [(''A'', ''one''), (''C'', ''three'')]
   \<and> (''B'', []) \<notin> set (parse_style_segments ''x {A} one {B}  {C} three'')"
proof -
  have 1: "CHR ''{'' \<notin> set ''x ''" by simp
  have 2: "\<forall>m\<in>set [(''A'', '' one '')]. wf_marker m" by (simp add: wf_marker_def)
  have 3: "CHR ''}'' \<notin> set ''B''" by simp
  have 4: "\<forall>c\<in>set ''  ''. isspace c" by (simp add: isspace_def)
  have 5: "\<forall>m\<in>set [(''C'', '' three'')]. wf_marker m" by (simp add: wf_marker_def)
  have 6: "unclosed []" by (simp add: unclosed_def)
  show ?thesis
    using segment_empty_marker_dropped [OF 1 2 3 4 5 6]
    by (simp add: render_def strip_def isspace_def)
qed

text \<open>
  C8: the text before the first marker is to be discarded whenever the text has a marker.
  The source guards the \<open>default\<close> segment by the emptiness of the collected segments
  (\<^verbatim>\<open>if not segments and text.strip()\<close>) under the comment ``If no style markers
  found'', so on a text whose only marker has no content the whole text, preamble and
  marker included, comes back as a \<open>default\<close> segment.
\<close>

theorem segment_preamble_kept_when_marker_empty:
  "findall_markers (''hello {A}'' @ ''{'') = [(''A'', [])]
   \<and> parse_style_segments ''hello {A}'' = [(''default'', ''hello {A}'')]"
  by code_simp

text \<open>
  So it is for every text whose markers are all without content; where a marker has
  content, the preamble is dropped.
\<close>

lemma segment_default_when_markers_empty:
  assumes "CHR ''{'' \<notin> set pre" and "\<forall>m\<in>set ms. wf_marker m" and "unclosed tail"
    and "ms \<noteq> []" and "collect_segments ms = []"
  shows "parse_style_segments (pre @ render ms @ tail)
           = [(''default'', strip (pre @ render ms @ tail))]"
proof -
  obtain a c ms' where "ms = (a, c) # ms'"
    using assms(4) by (cases ms) auto
  then have "CHR ''{'' \<in> set (pre @ render ms @ tail)"
    by (simp add: render_Cons)
  with brace_not_space have "\<not> (\<forall>x\<in>set (pre @ render ms @ tail). isspace x)"
    by blast
  then have "strip (pre @ render ms @ tail) \<noteq> []"
    using strip_Nil_blank by blast
  with assms(5) show ?thesis
    by (simp add: parse_decomposed [OF assms(1-3)])
qed


lemma segment_preamble_discarded:
  assumes "CHR ''{'' \<notin> set pre"
    and "collect_segments (findall_markers (s @ ''{'')) \<noteq> []"
  shows "parse_style_segments (pre @ s) = collect_segments (findall_markers (s @ ''{''))"
  using assms by (simp add: parse_style_segments_def findall_skip)

section \<open>Properties of the store\<close>

subsection \<open>Dicts\<close>

lemma update_absent: "map_of al k = None \<Longrightarrow> AList.update k v al = al @ [(k, v)]"
  by (induction al) (auto split: if_splits)

lemma set_update_subset: "set (AList.update k v al) \<subseteq> insert (k, v) (set al)"
  by (induction al) auto

lemma map_of_update: "map_of (AList.update k v al) = (map_of al)(k \<mapsto> v)"
  by (rule update_conv')

lemma count_key_update:
  "distinct (map fst al) \<Longrightarrow> length (filter (\<lambda>e. fst e = k) (AList.update k v al)) = 1"
proof (induction al)
  case Nil
  then show ?case by simp
next
  case (Cons e al)
  show ?case
  proof (cases "fst e = k")
    case True
    with Cons.prems have "k \<notin> fst ` set al" by simp
    then have "\<forall>x\<in>set al. fst x \<noteq> k" by blast
    then have "filter (\<lambda>e. fst e = k) al = []" by (simp add: filter_empty_conv)
    with True show ?thesis by simp
  next
    case False
    with Cons show ?thesis by simp
  qed
qed

lemma mkdir_parents_self: "p \<in> mkdir_parents p ds"
proof -
  have "p = (\<lambda>k. (fst p, take k (snd p))) (length (snd p))" by simp
  then have "p \<in> (\<lambda>k. (fst p, take k (snd p))) ` {0..<Suc (length (snd p))}"
    by (rule image_eqI) simp
  then show ?thesis by (simp add: mkdir_parents_def)
qed

lemma mkdir_parents_mono: "ds \<subseteq> mkdir_parents p ds"
  by (auto simp: mkdir_parents_def)

subsection \<open>Claims on creation, styles and lookups\<close>

text \<open>
  C2: for a name that is a key of the profile map, \<open>create_profile\<close> returns the
  ``already exists'' message and the state it was given: the map, the directories and
  every file, the existing manifest among them.  For a name that is not a key, the
  profile directory and its \<open>samples\<close> and \<open>outputs\<close> subdirectories exist afterwards,
  the manifest file holds the new profile with empty sample and style maps and no other
  file is touched, the profile is the last entry of the map, and the success message is
  returned.
\<close>

theorem create_profile_unique:
  "(map_of (profiles s) nm \<noteq> None \<longrightarrow>
      create_profile s nm descr now = (s, ''Profile '' @ quoted nm @ '' already exists.''))
   \<and> (map_of (profiles s) nm = None \<longrightarrow>
        (let s' = fst (create_profile s nm descr now);
             profile_dir = joinpath (profiles_dir s) nm;
             profile_data = \<lparr>name = nm, description = descr, created_at = strftime_iso now,
                              samples = [], styles = [], outputs = None\<rparr>
         in profile_dir \<in> dirs s'
            \<and> joinpath profile_dir ''samples'' \<in> dirs s'
            \<and> joinpath profile_dir ''outputs'' \<in> dirs s'
            \<and> dirs s \<subseteq> dirs s'
            \<and> files s' = (files s)(joinpath profile_dir ''profile.json'' \<mapsto> Manifest profile_data)
            \<and> profiles s' = profiles s @ [(nm, profile_data)]
            \<and> map_of (profiles s') nm = Some profile_data
            \<and> snd (create_profile s nm descr now)
                = ''Profile '' @ quoted nm @ '' created successfully.''))"
proof (intro conjI impI)
  assume "map_of (profiles s) nm \<noteq> None"
  then show "create_profile s nm descr now = (s, ''Profile '' @ quoted nm @ '' already exists.'')"
    by (simp add: create_profile_def)
next
  assume n: "map_of (profiles s) nm = None"
  have "joinpath (profiles_dir s) nm \<in> mkdir_parents (joinpath (profiles_dir s) nm) (dirs s)"
    by (rule mkdir_parents_self)
  moreover have "dirs s \<subseteq> mkdir_parents (joinpath (profiles_dir s) nm) (dirs s)"
    by (rule mkdir_parents_mono)
  ultimately show "let s' = fst (create_profile s nm descr now);
             profile_dir = joinpath (profiles_dir s) nm;
             profile_data = \<lparr>name = nm, description = descr, created_at = strftime_iso now,
                              samples = [], styles = [], outputs = None\<rparr>
         in profile_dir \<in> dirs s'
            \<and> joinpath profile_dir ''samples'' \<in> dirs s'
            \<and> joinpath profile_dir ''outputs'' \<in> dirs s'
            \<and> dirs s \<subseteq> dirs s'
            \<and> files s' = (files s)(joinpath profile_dir ''profile.json'' \<mapsto> Manifest profile_data)
            \<and> profiles s' = profiles s @ [(nm, profile_data)]
            \<and> map_of (profiles s') nm = Some profile_data
            \<and> snd (create_profile s nm descr now)
                = ''Profile '' @ quoted nm @ '' created successfully.''"
    using n by (auto simp: create_profile_def Let_def update_absent map_add_def)
qed

text \<open>The worked example: the state after each step.\<close>

lemmas time_eval =
  strftime_compact_def strftime_iso_def example_time_def pad2_def dec.simps digit_char_def

lemmas path_eval =
  Path_def path_root_def path_parts_def split_sep_def joinpath_def path_str_def
  output_filename_def replace_spaces_def splitext_ext_def

lemma example_times:
  "strftime_iso (example_time 0) = ''2024-03-09 14:05:00''"
  "strftime_iso (example_time 10) = ''2024-03-09 14:05:10''"
  "strftime_iso (example_time 20) = ''2024-03-09 14:05:20''"
  "strftime_iso (example_time 30) = ''2024-03-09 14:05:30''"
  "strftime_iso (example_time 31) = ''2024-03-09 14:05:31''"
  "strftime_compact (example_time 30) = ''20240309_140530''"
  "strftime_compact (example_time 31) = ''20240309_140531''"
  by (simp_all add: time_eval)

lemma alice_paths:
  "joinpath (Path ''voice_profiles'') ''alice'' = Path ''voice_profiles/alice''"
  "joinpath (Path ''voice_profiles/alice'') ''samples'' = Path ''voice_profiles/alice/samples''"
  "joinpath (Path ''voice_profiles/alice'') ''outputs'' = Path ''voice_profiles/alice/outputs''"
  "joinpath (Path ''voice_profiles/alice'') ''profile.json'' = Path ''voice_profiles/alice/profile.json''"
  "joinpath (Path ''voice_profiles/alice/samples'') ''calm_voice.wav''
     = Path ''voice_profiles/alice/samples/calm_voice.wav''"
  "path_str (Path ''voice_profiles/alice/samples/calm_voice.wav'')
     = ''voice_profiles/alice/samples/calm_voice.wav''"
  "splitext_ext ''/tmp/upload.wav'' = ''.wav''"
  "replace_spaces ''calm voice'' = ''calm_voice''"
  by (simp_all add: path_eval)

lemma empty_fields:
  "profiles_dir empty_store = Path ''voice_profiles''"
  "profiles empty_store = []"
  "files empty_store (Path ''/tmp/upload.wav'') = Some (Audio [1, 2, 3] 24000)"
  by (simp_all add: empty_store_def)

lemma alice_fields:
  "profiles_dir alice_store = Path ''voice_profiles''"
  "profiles alice_store =
     [(''alice'', \<lparr>name = ''alice'', description = ''my voice'',
                   created_at = ''2024-03-09 14:05:00'',
                   samples = [], styles = [], outputs = None\<rparr>)]"
  "files alice_store (Path ''/tmp/upload.wav'') = Some (Audio [1, 2, 3] 24000)"
  by (simp_all add: alice_store_def create_profile_def Let_def empty_fields example_times
        alice_paths, simp_all add: path_eval)

lemmas alice_profiles = alice_fields(2)

lemma sampled_fields:
  "profiles_dir sampled_store = Path ''voice_profiles''"
  "profiles sampled_store =
     [(''alice'', \<lparr>name = ''alice'', description = ''my voice'',
                   created_at = ''2024-03-09 14:05:00'',
                   samples = [(''calm voice'',
                               \<lparr>sample_path = ''voice_profiles/alice/samples/calm_voice.wav'',
                                sample_transcription = ''hello there'',
                                sample_added_at = ''2024-03-09 14:05:10''\<rparr>)],
                   styles = [], outputs = None\<rparr>)]"
  by (simp_all add: sampled_store_def add_sample_def Let_def alice_fields example_times
        alice_paths)

lemmas sampled_profiles = sampled_fields(2)

lemma styled_fields:
  "profiles_dir styled_store = Path ''voice_profiles''"
  "profiles styled_store =
     [(''alice'', \<lparr>name = ''alice'', description = ''my voice'',
                   created_at = ''2024-03-09 14:05:00'',
                   samples = [(''calm voice'',
                               \<lparr>sample_path = ''voice_profiles/alice/samples/calm_voice.wav'',
                                sample_transcription = ''hello there'',
                                sample_added_at = ''2024-03-09 14:05:10''\<rparr>)],
                   styles = [(''Calm'', \<lparr>style_sample = ''calm voice'',
                                         style_added_at = ''2024-03-09 14:05:20''\<rparr>)],
                   outputs = None\<rparr>)]"
  by (simp_all add: styled_store_def add_style_def Let_def sampled_fields example_times)

lemmas styled_profiles = styled_fields(2)

theorem create_profile_unique_witness:
  "create_profile alice_store ''alice'' ''again'' (example_time 30)
     = (alice_store, ''Profile '' @ quoted ''alice'' @ '' already exists.'')
   \<and> Path ''voice_profiles/alice'' \<in> dirs alice_store
   \<and> Path ''voice_profiles/alice/samples'' \<in> dirs alice_store
   \<and> Path ''voice_profiles/alice/outputs'' \<in> dirs alice_store
   \<and> files alice_store (Path ''voice_profiles/alice/profile.json'')
       = Some (Manifest \<lparr>name = ''alice'', description = ''my voice'',
                         created_at = ''2024-03-09 14:05:00'',
                         samples = [], styles = [], outputs = None\<rparr>)
   \<and> map fst (profiles alice_store) = [''alice'']"
proof -
  have n: "map_of (profiles empty_store) ''alice'' = None"
    by (simp add: empty_fields)
  have new: "Path ''voice_profiles/alice'' \<in> dirs alice_store
     \<and> Path ''voice_profiles/alice/samples'' \<in> dirs alice_store
     \<and> Path ''voice_profiles/alice/outputs'' \<in> dirs alice_store
     \<and> files alice_store (Path ''voice_profiles/alice/profile.json'')
         = Some (Manifest \<lparr>name = ''alice'', description = ''my voice'',
                         created_at = ''2024-03-09 14:05:00'',
                         samples = [], styles = [], outputs = None\<rparr>)"
    using create_profile_unique [of empty_store "''alice''" "''my voice''" "example_time 0"] n
    by (simp add: Let_def alice_store_def [symmetric] alice_paths example_times empty_fields)
  have a: "map_of (profiles alice_store) ''alice'' \<noteq> None"
    by (simp add: alice_profiles)
  show ?thesis
    using new a create_profile_unique [of alice_store "''alice''" "''again''" "example_time 30"]
    by (simp add: alice_profiles)
qed

text \<open>
  C5: \<open>add_style\<close> on a profile name that is not a key of the profile map returns the
  ``does not exist'' message for the profile, and on a known profile with a sample name
  that is not a key of its samples the message for the sample; in both cases the state
  returned is the state given: the styles, the map, every manifest and file.
\<close>

theorem add_style_rejects:
  "(map_of (profiles s) pn = None \<longrightarrow>
      add_style s pn st sn now = (s, ''Profile '' @ quoted pn @ '' does not exist.''))
   \<and> (map_of (profiles s) pn = Some p \<and> map_of (samples p) sn = None \<longrightarrow>
        add_style s pn st sn now =
          (s, ''Sample '' @ quoted sn @ '' does not exist in profile '' @ quoted pn @ ''.''))"
  by (simp add: add_style_def)

theorem add_style_rejects_witness:
  "add_style alice_store ''bob'' ''Calm'' ''calm voice'' (example_time 20)
     = (alice_store, ''Profile '' @ quoted ''bob'' @ '' does not exist.'')
   \<and> add_style sampled_store ''alice'' ''Calm'' ''loud voice'' (example_time 20)
     = (sampled_store, ''Sample '' @ quoted ''loud voice'' @ '' does not exist in profile '' @
                       quoted ''alice'' @ ''.'')"
proof -
  have 1: "map_of (profiles alice_store) ''bob'' = None"
    by (simp add: alice_profiles)
  have 2: "map_of (profiles sampled_store) ''alice'' = Some (snd (hd (profiles sampled_store)))
           \<and> map_of (samples (snd (hd (profiles sampled_store)))) ''loud voice'' = None"
    by (simp add: sampled_profiles)
  show ?thesis
    using add_style_rejects [of alice_store "''bob''" "''Calm''" "''calm voice''" "example_time 20"]
      add_style_rejects [where s = sampled_store and pn = "''alice''"
        and p = "snd (hd (profiles sampled_store))" and sn = "''loud voice''"
        and st = "''Calm''" and now = "example_time 20"] 1 2
    by simp
qed

text \<open>
  C9: the lookups are functions of the state alone and return nothing else.  When the
  profile or the key is missing, \<open>get_sample_path\<close> and \<open>get_style_sample\<close> give
  \<open>None\<close> and \<open>get_transcription\<close> the empty string; \<open>list_samples\<close> and
  \<open>list_styles\<close> give the empty list for an unknown profile.  Otherwise they give what
  is stored.
\<close>

theorem lookups_total:
  "((map_of (profiles s) pn = None
       \<or> (\<exists>p. map_of (profiles s) pn = Some p \<and> map_of (samples p) k = None))
      \<longrightarrow> get_sample_path s pn k = None \<and> get_transcription s pn k = [])
   \<and> ((map_of (profiles s) pn = None
       \<or> (\<exists>p. map_of (profiles s) pn = Some p \<and> map_of (styles p) k = None))
      \<longrightarrow> get_style_sample s pn k = None)
   \<and> (map_of (profiles s) pn = None \<longrightarrow> list_samples s pn = [] \<and> list_styles s pn = [])
   \<and> (\<forall>p x. map_of (profiles s) pn = Some p \<and> map_of (samples p) k = Some x
        \<longrightarrow> get_sample_path s pn k = Some (sample_path x)
            \<and> get_transcription s pn k = sample_transcription x)
   \<and> (\<forall>p x. map_of (profiles s) pn = Some p \<and> map_of (styles p) k = Some x
        \<longrightarrow> get_style_sample s pn k = Some (style_sample x))
   \<and> (\<forall>p. map_of (profiles s) pn = Some p
        \<longrightarrow> list_samples s pn = map fst (samples p) \<and> list_styles s pn = map fst (styles p))"
  by (auto simp: get_sample_path_def get_transcription_def get_style_sample_def
        list_samples_def list_styles_def)

theorem lookups_total_witness:
  "get_sample_path styled_store ''bob'' ''calm voice'' = None
   \<and> get_transcription styled_store ''bob'' ''calm voice'' = []
   \<and> get_sample_path styled_store ''alice'' ''loud voice'' = None
   \<and> get_transcription styled_store ''alice'' ''loud voice'' = []
   \<and> get_style_sample styled_store ''bob'' ''Calm'' = None
   \<and> get_style_sample styled_store ''alice'' ''Angry'' = None
   \<and> list_samples styled_store ''bob'' = []
   \<and> list_styles styled_store ''bob'' = []
   \<and> get_sample_path styled_store ''alice'' ''calm voice''
       = Some ''voice_profiles/alice/samples/calm_voice.wav''
   \<and> get_transcription styled_store ''alice'' ''calm voice'' = ''hello there''
   \<and> get_style_sample styled_store ''alice'' ''Calm'' = Some ''calm voice''
   \<and> list_samples styled_store ''alice'' = [''calm voice'']
   \<and> list_styles styled_store ''alice'' = [''Calm'']"
  using lookups_total [of styled_store "''bob''" "''calm voice''"]
    lookups_total [of styled_store "''alice''" "''loud voice''"]
    lookups_total [of styled_store "''bob''" "''Calm''"]
    lookups_total [of styled_store "''alice''" "''Angry''"]
    lookups_total [of styled_store "''alice''" "''calm voice''"]
    lookups_total [of styled_store "''alice''" "''Calm''"]
  by (simp add: styled_profiles)

subsection \<open>Styles refer to samples\<close>

lemma store_inv_update:
  assumes "store_inv s" and "styles_linked p'"
    and "profiles s' = AList.update pn p' (profiles s)"
  shows "store_inv s'"
  using assms set_update_subset [of pn p' "profiles s"]
  unfolding store_inv_def by auto

lemma store_inv_lookup: "store_inv s \<Longrightarrow> map_of (profiles s) pn = Some p \<Longrightarrow> styles_linked p"
  unfolding store_inv_def by (auto dest: map_of_SomeD)

lemma create_profile_inv: "store_inv s \<Longrightarrow> store_inv (fst (create_profile s nm descr now))"
proof (cases "map_of (profiles s) nm")
  case None
  assume i: "store_inv s"
  show ?thesis
    by (rule store_inv_update [OF i, where pn = nm and p' = "\<lparr>name = nm, description = descr,
          created_at = strftime_iso now, samples = [], styles = [], outputs = None\<rparr>"])
       (simp_all add: styles_linked_def create_profile_def None Let_def)
next
  case (Some p)
  assume "store_inv s"
  then show ?thesis by (simp add: create_profile_def Some)
qed

lemma add_sample_inv:
  assumes i: "store_inv s"
  shows "store_inv (fst (add_sample s pn sn audio_path tr now))"
proof (cases "map_of (profiles s) pn")
  case None
  with i show ?thesis by (simp add: add_sample_def)
next
  case (Some p)
  note l = store_inv_lookup [OF i Some]
  show ?thesis
  proof (cases "files s (Path audio_path)")
    case None
    with i Some show ?thesis by (simp add: add_sample_def Let_def)
  next
    case (Some c)
    show ?thesis
    proof (cases c)
      case (Manifest m)
      with i Some \<open>map_of (profiles s) pn = Some p\<close> show ?thesis
        by (simp add: add_sample_def Let_def)
    next
      case (Audio a sr)
      let ?p' = "p\<lparr>samples := AList.update sn
                   \<lparr>sample_path = path_str (joinpath (joinpath (joinpath (profiles_dir s) pn) ''samples'')
                                              (replace_spaces sn @ splitext_ext audio_path)),
                    sample_transcription = tr, sample_added_at = strftime_iso now\<rparr> (samples p)\<rparr>"
      have "styles_linked ?p'"
        using l by (auto simp: styles_linked_def map_of_update)
      then show ?thesis
        by (rule store_inv_update [OF i, where pn = pn])
           (simp add: add_sample_def Let_def \<open>map_of (profiles s) pn = Some p\<close> Some Audio)
    qed
  qed
qed

lemma add_style_inv:
  assumes i: "store_inv s"
  shows "store_inv (fst (add_style s pn st sn now))"
proof (cases "map_of (profiles s) pn")
  case None
  with i show ?thesis by (simp add: add_style_def)
next
  case (Some p)
  note l = store_inv_lookup [OF i Some]
  show ?thesis
  proof (cases "map_of (samples p) sn")
    case None
    with i Some show ?thesis by (simp add: add_style_def)
  next
    case (Some x)
    let ?p' = "p\<lparr>styles := AList.update st
                 \<lparr>style_sample = sn, style_added_at = strftime_iso now\<rparr> (styles p)\<rparr>"
    have "styles_linked ?p'"
      using l Some set_update_subset [of st "\<lparr>style_sample = sn, style_added_at = strftime_iso now\<rparr>" "styles p"]
      by (auto simp: styles_linked_def)
    then show ?thesis
      by (rule store_inv_update [OF i, where pn = pn])
         (simp add: add_style_def Let_def \<open>map_of (profiles s) pn = Some p\<close> Some)
  qed
qed

lemma save_output_inv:
  assumes i: "store_inv s"
  shows "store_inv (fst (save_output s pn out a sr tx st now now'))"
proof (cases "map_of (profiles s) pn")
  case None
  with i show ?thesis by (simp add: save_output_def)
next
  case (Some p)
  note l = store_inv_lookup [OF i Some]
  let ?p' = "p\<lparr>outputs := Some (AList.update out
       \<lparr>output_path = path_str (joinpath (joinpath (joinpath (profiles_dir s) pn) ''outputs'')
                                  (output_filename out now)),
        output_text = tx, output_style = st, output_created_at = strftime_iso now'\<rparr>
       (case outputs p of None \<Rightarrow> [] | Some os \<Rightarrow> os))\<rparr>"
  have "styles_linked ?p'"
    using l by (simp add: styles_linked_def)
  then show ?thesis
    by (rule store_inv_update [OF i, where pn = pn])
       (simp add: save_output_def Let_def Some)
qed

lemma keeps_samples_refl: "keeps_samples s s"
  by (simp add: keeps_samples_def)

lemma keeps_samples_update:
  assumes "map_of (profiles s) pn = Some p" and "fst ` set (samples p) \<subseteq> fst ` set (samples p')"
    and "profiles s' = AList.update pn p' (profiles s)"
  shows "keeps_samples s s'"
  using assms by (auto simp: keeps_samples_def map_of_update)

lemma keys_update: "fst ` set al \<subseteq> fst ` set (AList.update k v al)"
  by (induction al) auto

lemma create_profile_keeps: "keeps_samples s (fst (create_profile s nm descr now))"
proof (cases "map_of (profiles s) nm")
  case None
  then show ?thesis
    by (auto simp: keeps_samples_def create_profile_def Let_def map_of_update)
next
  case (Some p)
  then show ?thesis by (simp add: create_profile_def keeps_samples_refl)
qed

lemma add_sample_keeps: "keeps_samples s (fst (add_sample s pn sn audio_path tr now))"
proof (cases "map_of (profiles s) pn")
  case None
  then show ?thesis by (simp add: add_sample_def keeps_samples_refl)
next
  case (Some p)
  show ?thesis
  proof (cases "files s (Path audio_path)")
    case None
    with Some show ?thesis by (simp add: add_sample_def Let_def keeps_samples_refl)
  next
    case c: (Some c)
    show ?thesis
    proof (cases c)
      case (Manifest m)
      with Some c show ?thesis by (simp add: add_sample_def Let_def keeps_samples_refl)
    next
      case (Audio a sr)
      show ?thesis
        by (rule keeps_samples_update [OF Some, where p' = "p\<lparr>samples := AList.update sn
                   \<lparr>sample_path = path_str (joinpath (joinpath (joinpath (profiles_dir s) pn) ''samples'')
                                              (replace_spaces sn @ splitext_ext audio_path)),
                    sample_transcription = tr, sample_added_at = strftime_iso now\<rparr> (samples p)\<rparr>"])
           (simp_all add: add_sample_def Let_def Some c Audio keys_update)
    qed
  qed
qed

lemma add_style_keeps: "keeps_samples s (fst (add_style s pn st sn now))"
proof (cases "map_of (profiles s) pn")
  case None
  then show ?thesis by (simp add: add_style_def keeps_samples_refl)
next
  case (Some p)
  show ?thesis
  proof (cases "map_of (samples p) sn")
    case None
    with Some show ?thesis by (simp add: add_style_def keeps_samples_refl)
  next
    case x: (Some x)
    show ?thesis
      by (rule keeps_samples_update [OF Some, where p' = "p\<lparr>styles := AList.update st
                 \<lparr>style_sample = sn, style_added_at = strftime_iso now\<rparr> (styles p)\<rparr>"])
         (simp_all add: add_style_def Let_def Some x)
  qed
qed

lemma save_output_keeps: "keeps_samples s (fst (save_output s pn out a sr tx st now now'))"
proof (cases "map_of (profiles s) pn")
  case None
  then show ?thesis by (simp add: save_output_def keeps_samples_refl)
next
  case (Some p)
  show ?thesis
    by (rule keeps_samples_update [OF Some, where p' = "p\<lparr>outputs := Some (AList.update out
       \<lparr>output_path = path_str (joinpath (joinpath (joinpath (profiles_dir s) pn) ''outputs'')
                                  (output_filename out now)),
        output_text = tx, output_style = st, output_created_at = strftime_iso now'\<rparr>
       (case outputs p of None \<Rightarrow> [] | Some os \<Rightarrow> os))\<rparr>"])
       (simp_all add: save_output_def Let_def Some)
qed

text \<open>
  C10: in every store that \<open>create_profile\<close>, \<open>add_sample\<close>, \<open>add_style\<close> and
  \<open>save_output\<close> build from a manager without profiles, every style of every profile
  names a sample that is a key of that profile's samples; each of the four operations
  keeps this true of any store of which it is true; and none of them removes a profile or
  a sample key.
\<close>

theorem styles_reference_samples:
  "(reachable s \<longrightarrow> store_inv s)
   \<and> (store_inv s \<longrightarrow>
        store_inv (fst (create_profile s nm descr now))
        \<and> store_inv (fst (add_sample s pn sn audio_path tr now))
        \<and> store_inv (fst (add_style s pn st sn now))
        \<and> store_inv (fst (save_output s pn out a sr tx st now now')))
   \<and> keeps_samples s (fst (create_profile s nm descr now))
   \<and> keeps_samples s (fst (add_sample s pn sn audio_path tr now))
   \<and> keeps_samples s (fst (add_style s pn st sn now))
   \<and> keeps_samples s (fst (save_output s pn out a sr tx st now now'))"
proof (intro conjI impI)
  assume "reachable s"
  then show "store_inv s"
  proof (induction rule: reachable.induct)
    case (fresh s)
    then show ?case by (simp add: store_inv_def)
  qed (simp_all add: create_profile_inv add_sample_inv add_style_inv save_output_inv)
qed (simp_all add: create_profile_inv add_sample_inv add_style_inv save_output_inv
       create_profile_keeps add_sample_keeps add_style_keeps save_output_keeps)

theorem styles_reference_samples_witness:
  "store_inv styled_store
   \<and> get_style_sample styled_store ''alice'' ''Calm'' = Some ''calm voice''
   \<and> list_samples styled_store ''alice'' = [''calm voice'']
   \<and> store_inv (fst (add_style styled_store ''alice'' ''Angry'' ''loud voice'' (example_time 40)))
   \<and> get_style_sample (fst (add_style styled_store ''alice'' ''Angry'' ''loud voice''
         (example_time 40))) ''alice'' ''Angry'' = None"
proof -
  have "profiles empty_store = []" by (simp add: empty_store_def)
  then have "reachable empty_store" by (rule reachable.fresh)
  then have "reachable alice_store"
    unfolding alice_store_def by (rule reachable.created)
  then have "reachable sampled_store"
    unfolding sampled_store_def by (rule reachable.sample_added)
  then have r: "reachable styled_store"
    unfolding styled_store_def by (rule reachable.style_added)
  have i: "store_inv styled_store"
    using styles_reference_samples [of styled_store] r by simp
  have j: "store_inv (fst (add_style styled_store ''alice'' ''Angry'' ''loud voice'' (example_time 40)))"
    using styles_reference_samples [where s = styled_store and pn = "''alice''"
        and st = "''Angry''" and sn = "''loud voice''" and now = "example_time 40"] i
    by simp
  have k: "add_style styled_store ''alice'' ''Angry'' ''loud voice'' (example_time 40)
            = (styled_store, ''Sample '' @ quoted ''loud voice'' @ '' does not exist in profile '' @
                       quoted ''alice'' @ ''.'')"
    by (simp add: add_style_def styled_profiles)
  show ?thesis
    using i j by (simp add: k get_style_sample_def list_samples_def styled_profiles)
qed

subsection \<open>Timestamps\<close>

lemma digit_char_digit: "d < 10 \<Longrightarrow> digit_char d \<in> set ''0123456789''"
  unfolding digit_char_def by (rule nth_mem) simp

lemma digit_char_inj: "a < 10 \<Longrightarrow> b < 10 \<Longrightarrow> digit_char a = digit_char b \<Longrightarrow> a = b"
proof -
  assume a: "a < 10" and b: "b < 10" and e: "digit_char a = digit_char b"
  have d: "distinct ''0123456789''" by simp
  have "a < length ''0123456789''" "b < length ''0123456789''" using a b by simp_all
  with d e show "a = b" unfolding digit_char_def by (simp only: nth_eq_iff_index_eq)
qed

lemma dec_digits: "set (dec n) \<subseteq> set ''0123456789''"
proof (induction n rule: dec.induct)
  case (1 n)
  show ?case
  proof (cases "n < 10")
    case True
    then show ?thesis using digit_char_digit [of n] by (subst dec.simps) simp
  next
    case False
    have "n mod 10 < 10" by simp
    then have "digit_char (n mod 10) \<in> set ''0123456789''" by (rule digit_char_digit)
    with False 1 show ?thesis by (subst dec.simps) simp
  qed
qed

lemma dec_small: "n < 10 \<Longrightarrow> dec n = [digit_char n]"
  by (subst dec.simps) simp

lemma dec_large: "\<not> n < 10 \<Longrightarrow> dec n = dec (n div 10) @ [digit_char (n mod 10)]"
  by (subst dec.simps) simp

lemma dec_not_Nil: "dec n \<noteq> []"
  by (cases "n < 10") (simp_all add: dec_small dec_large)

lemma dec_inj: "dec n = dec m \<Longrightarrow> n = m"
proof (induction n arbitrary: m rule: dec.induct)
  case (1 n)
  show ?case
  proof (cases "n < 10")
    case True
    show ?thesis
    proof (cases "m < 10")
      case m: True
      with True "1.prems" show ?thesis by (simp add: dec_small digit_char_inj)
    next
      case m: False
      with True "1.prems" dec_not_Nil [of "m div 10"] show ?thesis
        by (simp add: dec_small dec_large)
    qed
  next
    case False
    show ?thesis
    proof (cases "m < 10")
      case m: True
      with False "1.prems" dec_not_Nil [of "n div 10"] show ?thesis
        by (simp add: dec_small dec_large)
    next
      case m: False
      from False m "1.prems" have e: "dec (n div 10) = dec (m div 10)"
          and d: "digit_char (n mod 10) = digit_char (m mod 10)"
        by (simp_all add: dec_large)
      from "1.IH" [OF False e] have "n div 10 = m div 10" .
      moreover from d have "n mod 10 = m mod 10" by (intro digit_char_inj) simp_all
      ultimately show ?thesis by (metis div_mult_mod_eq)
    qed
  qed
qed

lemma pad2_digits: "set (pad2 n) \<subseteq> set ''0123456789''"
  using dec_digits [of n] by (auto simp: pad2_def)

lemma pad2_two: "n < 100 \<Longrightarrow> pad2 n = [digit_char (n div 10), digit_char (n mod 10)]"
proof (cases "n < 10")
  case True
  then show ?thesis by (simp add: pad2_def dec_small digit_char_def)
next
  case False
  assume "n < 100"
  then have "n div 10 < 10" by simp
  with False show ?thesis by (simp add: pad2_def dec_large dec_small)
qed

lemma pad2_inj: "n < 100 \<Longrightarrow> m < 100 \<Longrightarrow> pad2 n = pad2 m \<Longrightarrow> n = m"
proof -
  assume n: "n < 100" and m: "m < 100" and e: "pad2 n = pad2 m"
  from n m have "n div 10 < 10" "m div 10 < 10" by simp_all
  moreover from e have "digit_char (n div 10) = digit_char (m div 10)"
      "digit_char (n mod 10) = digit_char (m mod 10)"
    by (simp_all add: pad2_two n m)
  ultimately have "n div 10 = m div 10" "n mod 10 = m mod 10"
    by (auto intro: digit_char_inj)
  then show "n = m" by (metis div_mult_mod_eq)
qed

lemma strftime_compact_chars: "CHR ''/'' \<notin> set (strftime_compact t)"
  using dec_digits [of "tm_year t"] pad2_digits [of "tm_mon t"] pad2_digits [of "tm_mday t"]
    pad2_digits [of "tm_hour t"] pad2_digits [of "tm_min t"] pad2_digits [of "tm_sec t"]
  by (auto simp: strftime_compact_def)

lemma strftime_compact_inj:
  assumes "valid_time t" "valid_time u" "strftime_compact t = strftime_compact u"
  shows "t = u"
proof -
  from assms(1) have t: "tm_mon t < 100" "tm_mday t < 100" "tm_hour t < 100" "tm_min t < 100" "tm_sec t < 100"
    by (simp_all add: valid_time_def)
  from assms(2) have u: "tm_mon u < 100" "tm_mday u < 100" "tm_hour u < 100" "tm_min u < 100" "tm_sec u < 100"
    by (simp_all add: valid_time_def)
  have l: "length (pad2 n) = 2" if "n < 100" for n using that by (simp add: pad2_two)
  let ?rest = "\<lambda>t. pad2 (tm_mon t) @ pad2 (tm_mday t) @ ''_'' @ pad2 (tm_hour t) @ pad2 (tm_min t) @ pad2 (tm_sec t)"
  have lr: "length (?rest t) = length (?rest u)" using t u by (simp add: l)
  from assms(3) have e: "dec (tm_year t) @ ?rest t = dec (tm_year u) @ ?rest u"
    by (simp add: strftime_compact_def)
  then have "length (dec (tm_year t) @ ?rest t) = length (dec (tm_year u) @ ?rest u)" by simp
  with lr have ly: "length (dec (tm_year t)) = length (dec (tm_year u))" by simp
  have "dec (tm_year t) = dec (tm_year u) \<and> ?rest t = ?rest u"
    by (rule iffD1 [OF append_eq_append_conv [OF disjI1 [OF ly]] e])
  then have y: "dec (tm_year t) = dec (tm_year u)" and r: "?rest t = ?rest u"
    by blast+
  from r have "pad2 (tm_mon t) = pad2 (tm_mon u) \<and> pad2 (tm_mday t) = pad2 (tm_mday u)
     \<and> pad2 (tm_hour t) = pad2 (tm_hour u) \<and> pad2 (tm_min t) = pad2 (tm_min u)
     \<and> pad2 (tm_sec t) = pad2 (tm_sec u)"
    using t u by (simp add: pad2_two)
  then have "tm_mon t = tm_mon u" "tm_mday t = tm_mday u" "tm_hour t = tm_hour u"
      "tm_min t = tm_min u" "tm_sec t = tm_sec u"
    using t u by (auto intro: pad2_inj)
  moreover from y have "tm_year t = tm_year u" by (rule dec_inj)
  ultimately show ?thesis by simp
qed

subsection \<open>Paths of output files\<close>

lemma split_acc_not_Nil: "split_acc w s \<noteq> []"
  by (induction s arbitrary: w) auto

lemma split_acc_no_sep: "CHR ''/'' \<notin> set ys \<Longrightarrow> split_acc w ys = [w @ ys]"
  by (induction ys arbitrary: w) auto

lemma split_acc_append:
  "CHR ''/'' \<notin> set ys \<Longrightarrow>
   split_acc w (xs @ ys) = butlast (split_acc w xs) @ [last (split_acc w xs) @ ys]"
proof (induction xs arbitrary: w)
  case Nil
  then show ?case by (simp add: split_acc_no_sep)
next
  case (Cons c cs)
  then show ?case by (simp add: split_acc_not_Nil)
qed

lemma path_parts_suffixed:
  assumes "CHR ''/'' \<notin> set sfx" and "2 \<le> length sfx"
  shows "path_parts (n @ sfx) =
           filter (\<lambda>w. w \<noteq> [] \<and> w \<noteq> ''.'') (butlast (split_sep n)) @ [last (split_sep n) @ sfx]"
proof -
  have "last (split_sep n) @ sfx \<noteq> []" using assms(2) by auto
  moreover have "last (split_sep n) @ sfx \<noteq> ''.''"
  proof
    assume "last (split_sep n) @ sfx = ''.''"
    then have "length (last (split_sep n) @ sfx) = 1" by simp
    with assms(2) show False by simp
  qed
  ultimately show ?thesis
    by (simp add: path_parts_def split_sep_def split_acc_append [OF assms(1)])
qed

lemma takeWhile_stop: "\<not> P y \<Longrightarrow> takeWhile P (xs @ y # ys) = takeWhile P xs"
  by (induction xs) auto

lemma path_root_suffixed: "path_root (n @ CHR ''_'' # r) = path_root n"
  by (simp add: path_root_def takeWhile_stop)

lemma output_filename_suffix: "output_filename nm t = replace_spaces nm @ file_suffix t"
  by (simp add: output_filename_def file_suffix_def)

lemma file_suffix_props:
  "CHR ''/'' \<notin> set (file_suffix t)" "2 \<le> length (file_suffix t)"
  using strftime_compact_chars [of t] by (simp_all add: file_suffix_def)

lemma file_suffix_eq: "file_suffix t = file_suffix u \<longleftrightarrow> strftime_compact t = strftime_compact u"
  by (simp add: file_suffix_def)

lemma output_parts:
  "path_parts (output_filename nm t) =
     filter (\<lambda>w. w \<noteq> [] \<and> w \<noteq> ''.'') (butlast (split_sep (replace_spaces nm)))
       @ [last (split_sep (replace_spaces nm)) @ file_suffix t]"
  unfolding output_filename_suffix by (rule path_parts_suffixed [OF file_suffix_props])

lemma output_root: "path_root (output_filename nm t) = path_root (replace_spaces nm)"
  by (simp add: output_filename_def path_root_suffixed)

lemma output_filename_eq:
  "output_filename nm t = output_filename nm u \<longleftrightarrow> strftime_compact t = strftime_compact u"
  by (simp add: output_filename_def)

lemma output_file_eq:
  "joinpath d (output_filename nm t) = joinpath d (output_filename nm u)
     \<longleftrightarrow> strftime_compact t = strftime_compact u"
  by (auto simp: joinpath_def Path_def output_root output_parts file_suffix_eq)

lemma join_sep_snoc:
  "join_sep (xs @ [y]) = (if xs = [] then y else join_sep xs @ CHR ''/'' # y)"
  by (induction xs rule: join_sep.induct) auto

lemma output_path_str_eq:
  "path_str (joinpath d (output_filename nm t)) = path_str (joinpath d (output_filename nm u))
     \<longleftrightarrow> strftime_compact t = strftime_compact u"
proof
  assume "strftime_compact t = strftime_compact u"
  then show "path_str (joinpath d (output_filename nm t)) = path_str (joinpath d (output_filename nm u))"
    by (simp add: output_filename_def)
next
  assume e: "path_str (joinpath d (output_filename nm t)) = path_str (joinpath d (output_filename nm u))"
  define xs where "xs = filter (\<lambda>w. w \<noteq> [] \<and> w \<noteq> ''.'') (butlast (split_sep (replace_spaces nm)))"
  define y where "y = last (split_sep (replace_spaces nm))"
  define r where "r = (if path_root (replace_spaces nm) \<noteq> [] then path_root (replace_spaces nm) else fst d)"
  define ps where "ps = (if path_root (replace_spaces nm) \<noteq> [] then xs else snd d @ xs)"
  have j: "joinpath d (output_filename nm v) = (r, ps @ [y @ file_suffix v])" for v
    by (simp add: joinpath_def Path_def output_root output_parts r_def ps_def xs_def y_def)
  have s: "path_str (r, ps @ [y @ file_suffix v])
           = r @ (if ps = [] then y @ file_suffix v else join_sep ps @ CHR ''/'' # y @ file_suffix v)" for v
    using file_suffix_props(2) [of v] by (auto simp: path_str_def join_sep_snoc Let_def)
  from e have "file_suffix t = file_suffix u"
    unfolding j s by (simp split: if_splits)
  then show "strftime_compact t = strftime_compact u" by (simp add: file_suffix_eq)
qed

lemma output_file_not_manifest:
  "joinpath d (output_filename nm t) \<noteq> joinpath d' ''profile.json''"
proof
  assume e: "joinpath d (output_filename nm t) = joinpath d' ''profile.json''"
  have m: "joinpath d' ''profile.json'' = (fst d', snd d' @ [''profile.json''])"
    by (simp add: joinpath_def path_root_def path_parts_def split_sep_def)
  have "last (snd (joinpath d (output_filename nm t)))
        = last (split_sep (replace_spaces nm)) @ file_suffix t"
    by (simp add: joinpath_def Path_def output_parts)
  with e m have "last (split_sep (replace_spaces nm)) @ file_suffix t = ''profile.json''"
    by simp
  then have "last (last (split_sep (replace_spaces nm)) @ file_suffix t) = last ''profile.json''"
    by simp
  then show False by (simp add: file_suffix_def)
qed

subsection \<open>Saving an output twice\<close>

lemma save_output_found:
  assumes "map_of (profiles s) pn = Some p"
  shows "save_output s pn nm a sr tx st t t' =
           (s\<lparr>profiles := AList.update pn
                 (p\<lparr>outputs := Some (AList.update nm
                      \<lparr>output_path = path_str (joinpath (joinpath (joinpath (profiles_dir s) pn) ''outputs'')
                                                 (output_filename nm t)),
                       output_text = tx, output_style = st, output_created_at = strftime_iso t'\<rparr>
                      (case outputs p of None \<Rightarrow> [] | Some os \<Rightarrow> os))\<rparr>)
                 (profiles s),
              files := (files s)
                 (joinpath (joinpath (joinpath (profiles_dir s) pn) ''outputs'') (output_filename nm t)
                    \<mapsto> Audio a sr,
                  joinpath (joinpath (profiles_dir s) pn) ''profile.json''
                    \<mapsto> Manifest (p\<lparr>outputs := Some (AList.update nm
                      \<lparr>output_path = path_str (joinpath (joinpath (joinpath (profiles_dir s) pn) ''outputs'')
                                                 (output_filename nm t)),
                       output_text = tx, output_style = st, output_created_at = strftime_iso t'\<rparr>
                      (case outputs p of None \<Rightarrow> [] | Some os \<Rightarrow> os))\<rparr>))\<rparr>,
            path_str (joinpath (joinpath (joinpath (profiles_dir s) pn) ''outputs'')
                        (output_filename nm t)))"
  using assms by (simp add: save_output_def Let_def)

text \<open>The two saves of the worked example.\<close>

lemma take_paths:
  "joinpath (Path ''voice_profiles/alice/outputs'') (output_filename ''take 1'' (example_time 30))
     = Path ''voice_profiles/alice/outputs/take_1_20240309_140530.wav''"
  "joinpath (Path ''voice_profiles/alice/outputs'') (output_filename ''take 1'' (example_time 31))
     = Path ''voice_profiles/alice/outputs/take_1_20240309_140531.wav''"
  "path_str (Path ''voice_profiles/alice/outputs/take_1_20240309_140530.wav'')
     = ''voice_profiles/alice/outputs/take_1_20240309_140530.wav''"
  "path_str (Path ''voice_profiles/alice/outputs/take_1_20240309_140531.wav'')
     = ''voice_profiles/alice/outputs/take_1_20240309_140531.wav''"
  "output_filename ''take 1'' (example_time 30) = ''take_1_20240309_140530.wav''"
  by (simp_all add: path_eval example_times)

lemma first_take_fields:
  "snd first_take = ''voice_profiles/alice/outputs/take_1_20240309_140530.wav''"
  "profiles_dir (fst first_take) = Path ''voice_profiles''"
  "map_of (profiles (fst first_take)) ''alice'' =
     Some \<lparr>name = ''alice'', description = ''my voice'', created_at = ''2024-03-09 14:05:00'',
           samples = [], styles = [],
           outputs = Some [(''take 1'',
             \<lparr>output_path = ''voice_profiles/alice/outputs/take_1_20240309_140530.wav'',
              output_text = ''hi'', output_style = ''default'',
              output_created_at = ''2024-03-09 14:05:30''\<rparr>)]\<rparr>"
  "files (fst first_take) (Path ''voice_profiles/alice/outputs/take_1_20240309_140530.wav'')
     = Some (Audio [1, 2] 24000)"
  by (simp_all add: first_take_def save_output_def Let_def alice_fields alice_paths
        take_paths(1-4) example_times, simp_all add: path_eval)

lemma same_second_take_fields:
  "snd same_second_take = ''voice_profiles/alice/outputs/take_1_20240309_140530.wav''"
  "files (fst same_second_take) (Path ''voice_profiles/alice/outputs/take_1_20240309_140530.wav'')
     = Some (Audio [3, 4] 24000)"
  by (simp_all add: same_second_take_def save_output_def Let_def first_take_fields alice_paths
        take_paths(1-4) example_times, simp_all add: path_eval)

text \<open>
  C1, as stated: two successful saves under one output name derive distinct file names.
  The suffix is the clock reading to the second, so two saves within one second derive
  the same name and the same path, and the second save overwrites the file of the first.
\<close>

theorem save_output_same_second_counterexample:
  "snd first_take = ''voice_profiles/alice/outputs/take_1_20240309_140530.wav''
   \<and> snd same_second_take = ''voice_profiles/alice/outputs/take_1_20240309_140530.wav''
   \<and> output_filename ''take 1'' (example_time 30) = ''take_1_20240309_140530.wav''
   \<and> files (fst first_take) (Path ''voice_profiles/alice/outputs/take_1_20240309_140530.wav'')
       = Some (Audio [1, 2] 24000)
   \<and> files (fst same_second_take) (Path ''voice_profiles/alice/outputs/take_1_20240309_140530.wav'')
       = Some (Audio [3, 4] 24000)"
  by (simp add: first_take_fields same_second_take_fields take_paths)

text \<open>
  C1, amended: for two successive successful saves on one profile under one output name,
  the derived file names, the paths of the files and the returned paths are distinct
  exactly when the timestamp suffixes differ, that is (for clock readings within range)
  when the two saves read the clock in different seconds; then both files are on disk.
  In every case the profile's manifest, in memory and on disk, has afterwards exactly one
  entry under that output name, with the path, text, style and timestamp of the last
  save.
\<close>

theorem save_output_twice:
  assumes "map_of (profiles s) pn = Some p"
    and "distinct (map fst (case outputs p of None \<Rightarrow> [] | Some os \<Rightarrow> os))"
  shows "let r1 = save_output s pn nm a1 sr1 tx1 st1 t1 t1';
             r2 = save_output (fst r1) pn nm a2 sr2 tx2 st2 t2 t2';
             outputs_dir = joinpath (joinpath (profiles_dir s) pn) ''outputs'';
             file1 = joinpath outputs_dir (output_filename nm t1);
             file2 = joinpath outputs_dir (output_filename nm t2)
         in snd r1 = path_str file1 \<and> snd r2 = path_str file2
            \<and> (output_filename nm t1 \<noteq> output_filename nm t2
                  \<longleftrightarrow> strftime_compact t1 \<noteq> strftime_compact t2)
            \<and> (file1 \<noteq> file2 \<longleftrightarrow> strftime_compact t1 \<noteq> strftime_compact t2)
            \<and> (snd r1 \<noteq> snd r2 \<longleftrightarrow> strftime_compact t1 \<noteq> strftime_compact t2)
            \<and> (valid_time t1 \<and> valid_time t2
                  \<longrightarrow> (strftime_compact t1 \<noteq> strftime_compact t2 \<longleftrightarrow> t1 \<noteq> t2))
            \<and> (strftime_compact t1 \<noteq> strftime_compact t2
                  \<longrightarrow> files (fst r2) file1 = Some (Audio a1 sr1))
            \<and> files (fst r2) file2 = Some (Audio a2 sr2)
            \<and> (\<exists>p2 outs. map_of (profiles (fst r2)) pn = Some p2 \<and> outputs p2 = Some outs
                  \<and> length (filter (\<lambda>e. fst e = nm) outs) = 1
                  \<and> map_of outs nm =
                      Some \<lparr>output_path = snd r2, output_text = tx2, output_style = st2,
                            output_created_at = strftime_iso t2'\<rparr>
                  \<and> files (fst r2) (joinpath (joinpath (profiles_dir s) pn) ''profile.json'')
                      = Some (Manifest p2))"
proof -
  define od where "od = joinpath (joinpath (profiles_dir s) pn) ''outputs''"
  define man where "man = joinpath (joinpath (profiles_dir s) pn) ''profile.json''"
  define f1 where "f1 = joinpath od (output_filename nm t1)"
  define f2 where "f2 = joinpath od (output_filename nm t2)"
  define outs0 where "outs0 = (case outputs p of None \<Rightarrow> [] | Some os \<Rightarrow> os)"
  define m1 where "m1 = \<lparr>output_path = path_str f1, output_text = tx1, output_style = st1,
                          output_created_at = strftime_iso t1'\<rparr>"
  define m2 where "m2 = \<lparr>output_path = path_str f2, output_text = tx2, output_style = st2,
                          output_created_at = strftime_iso t2'\<rparr>"
  define p1 where "p1 = p\<lparr>outputs := Some (AList.update nm m1 outs0)\<rparr>"
  define p2 where "p2 = p1\<lparr>outputs := Some (AList.update nm m2 (AList.update nm m1 outs0))\<rparr>"
  define s1 where "s1 = s\<lparr>profiles := AList.update pn p1 (profiles s),
                           files := (files s)(f1 \<mapsto> Audio a1 sr1, man \<mapsto> Manifest p1)\<rparr>"
  define s2 where "s2 = s1\<lparr>profiles := AList.update pn p2 (profiles s1),
                            files := (files s1)(f2 \<mapsto> Audio a2 sr2, man \<mapsto> Manifest p2)\<rparr>"
  have r1: "save_output s pn nm a1 sr1 tx1 st1 t1 t1' = (s1, path_str f1)"
    unfolding save_output_found [OF assms(1)]
    by (simp add: s1_def p1_def m1_def f1_def od_def man_def outs0_def)
  have l1: "map_of (profiles s1) pn = Some p1"
    by (simp add: s1_def map_of_update)
  have d1: "profiles_dir s1 = profiles_dir s" by (simp add: s1_def)
  have o1: "(case outputs p1 of None \<Rightarrow> [] | Some os \<Rightarrow> os) = AList.update nm m1 outs0"
    by (simp add: p1_def)
  have r2: "save_output s1 pn nm a2 sr2 tx2 st2 t2 t2' = (s2, path_str f2)"
    unfolding save_output_found [OF l1] d1 o1
    by (simp add: s2_def p2_def m2_def f2_def od_def man_def)
  have nm1: "f1 \<noteq> man" and nm2: "f2 \<noteq> man"
    unfolding f1_def f2_def man_def by (rule output_file_not_manifest)+
  have fe: "f1 \<noteq> f2 \<longleftrightarrow> strftime_compact t1 \<noteq> strftime_compact t2"
    unfolding f1_def f2_def by (simp add: output_file_eq)
  have se: "path_str f1 \<noteq> path_str f2 \<longleftrightarrow> strftime_compact t1 \<noteq> strftime_compact t2"
    unfolding f1_def f2_def by (simp add: output_path_str_eq)
  have ne: "output_filename nm t1 \<noteq> output_filename nm t2
              \<longleftrightarrow> strftime_compact t1 \<noteq> strftime_compact t2"
    by (simp add: output_filename_eq)
  have ve: "valid_time t1 \<and> valid_time t2
              \<longrightarrow> (strftime_compact t1 \<noteq> strftime_compact t2 \<longleftrightarrow> t1 \<noteq> t2)"
    using strftime_compact_inj [of t1 t2] by auto
  have k1: "strftime_compact t1 \<noteq> strftime_compact t2 \<longrightarrow> files s2 f1 = Some (Audio a1 sr1)"
    using fe nm1 by (simp add: s2_def s1_def)
  have k2: "files s2 f2 = Some (Audio a2 sr2)"
    using nm2 by (simp add: s2_def)
  have dd: "distinct (map fst (AList.update nm m1 outs0))"
    using assms(2) by (simp add: distinct_update outs0_def)
  have mf: "map_of (profiles s2) pn = Some p2 \<and> outputs p2 = Some (AList.update nm m2 (AList.update nm m1 outs0))
        \<and> length (filter (\<lambda>e. fst e = nm) (AList.update nm m2 (AList.update nm m1 outs0))) = 1
        \<and> map_of (AList.update nm m2 (AList.update nm m1 outs0)) nm = Some m2
        \<and> files s2 man = Some (Manifest p2)"
    using count_key_update [OF dd, of nm m2]
    by (simp add: s2_def p2_def map_of_update)
  then have ex: "\<exists>p2 outs. map_of (profiles s2) pn = Some p2 \<and> outputs p2 = Some outs
                  \<and> length (filter (\<lambda>e. fst e = nm) outs) = 1
                  \<and> map_of outs nm = Some m2
                  \<and> files s2 man = Some (Manifest p2)"
    by blast
  show ?thesis
    unfolding Let_def r1 fst_conv snd_conv r2
    using fe se ne ve k1 k2 ex
    unfolding f1_def f2_def od_def man_def m2_def
    by blast
qed

theorem save_output_twice_witness:
  "snd first_take \<noteq> snd later_take
   \<and> files (fst later_take) (Path ''voice_profiles/alice/outputs/take_1_20240309_140530.wav'')
       = Some (Audio [1, 2] 24000)
   \<and> files (fst later_take) (Path ''voice_profiles/alice/outputs/take_1_20240309_140531.wav'')
       = Some (Audio [3, 4] 24000)
   \<and> (\<exists>p2 outs. map_of (profiles (fst later_take)) ''alice'' = Some p2 \<and> outputs p2 = Some outs
         \<and> length (filter (\<lambda>e. fst e = ''take 1'') outs) = 1
         \<and> map_of outs ''take 1'' =
             Some \<lparr>output_path = ''voice_profiles/alice/outputs/take_1_20240309_140531.wav'',
                   output_text = ''ho'', output_style = ''Calm'',
                   output_created_at = ''2024-03-09 14:05:31''\<rparr>
         \<and> files (fst later_take) (Path ''voice_profiles/alice/profile.json'') = Some (Manifest p2))"
proof -
  have 1: "map_of (profiles alice_store) ''alice'' = Some (snd (hd (profiles alice_store)))"
    by (simp add: alice_profiles)
  have 2: "distinct (map fst (case outputs (snd (hd (profiles alice_store))) of
                                None \<Rightarrow> [] | Some os \<Rightarrow> os))"
    by (simp add: alice_profiles)
  have 3: "strftime_compact (example_time 30) \<noteq> strftime_compact (example_time 31)"
    by (simp add: example_times)
  have 4: "valid_time (example_time 30)" "valid_time (example_time 31)"
    by (simp_all add: valid_time_def example_time_def)
  have 5: "snd later_take = ''voice_profiles/alice/outputs/take_1_20240309_140531.wav''"
    by (simp add: later_take_def save_output_def Let_def first_take_fields alice_paths
          take_paths(1-4))
  show ?thesis
    using save_output_twice [OF 1 2, where nm = "''take 1''" and ?a1.0 = "[1, 2]" and ?sr1.0 = 24000
        and ?tx1.0 = "''hi''" and ?st1.0 = "''default''" and ?t1.0 = "example_time 30"
        and ?t1' = "example_time 30" and ?a2.0 = "[3, 4]" and ?sr2.0 = 24000
        and ?tx2.0 = "''ho''" and ?st2.0 = "''Calm''" and ?t2.0 = "example_time 31"
        and ?t2' = "example_time 31"] 3
    by (auto simp: Let_def first_take_def [symmetric] later_take_def [symmetric] 4 5
          alice_fields alice_paths take_paths(1-4) example_times(1-5))
qed

section \<open>Properties of the synthesis facade\<close>

lemma remaining_segments_Nil: "remaining_segments m [] = []"
  by (simp add: remaining_segments_def)

lemma remaining_segments_Cons:
  "remaining_segments m ((st, tx) # segs) =
     (case resolve_style m st of None \<Rightarrow> [] | Some i \<Rightarrow> [(i, tx)]) @ remaining_segments m segs"
  by (simp add: remaining_segments_def)

lemma synthesize_segments_closed:
  "synthesize_segments E m rs segs (g, sr, calls) =
     (let outs = map (\<lambda>(i, tx). synthesize_one E rs i tx) (remaining_segments m segs)
      in (g @ map fst outs,
          (if outs = [] then sr else Some (fst (snd (last outs)))),
          calls @ map (\<lambda>out. snd (snd out)) outs))"
proof (induction segs arbitrary: g sr calls)
  case Nil
  then show ?case by (simp add: remaining_segments_Nil)
next
  case (Cons seg segs)
  obtain st tx where seg: "seg = (st, tx)" by (cases seg)
  show ?case
  proof (cases "resolve_style m st")
    case None
    then show ?thesis
      by (simp add: seg remaining_segments_Cons Cons.IH)
  next
    case (Some i)
    obtain w r c where o: "synthesize_one E rs i tx = (w, r, c)"
      by (cases "synthesize_one E rs i tx")
    show ?thesis
      by (simp add: seg remaining_segments_Cons Some o Cons.IH Let_def)
  qed
qed

lemma generate_closed:
  "generate_multi_style_speech E annotated m rs =
     (let outs = map (\<lambda>(i, tx). synthesize_one E rs i tx)
                   (remaining_segments m (parse_style_segments annotated))
      in (if outs = [] then Inr None
          else (case np_concatenate (map fst outs) of
                  Inl e \<Rightarrow> Inl e
                | Inr final_audio \<Rightarrow> Inr (Some (fst (snd (last outs)), final_audio))),
          map (\<lambda>out. snd (snd out)) outs))"
  unfolding generate_multi_style_speech_def Let_def synthesize_segments_closed
  by (simp split: sum.splits)





lemmas engine_eval =
  remaining_segments_def example_map_def resolve_style_def parse_style_segments_def
  findall_markers.simps strip_def isspace_def synthesize_one_def example_engine_def squeeze_def


text \<open>
  Outside the amended claim: a wave that the removal of silence leaves with a single sample
  is squeezed to a zero-dimensional array, and \<^verbatim>\<open>np.concatenate\<close> raises.
\<close>

lemma one_sample_wave_raises:
  "generate_multi_style_speech example_engine ''{Loud} d'' example_map True
     = (Inl (ValueError ''zero-dimensional arrays cannot be concatenated''),
        [(''plain.wav'', ''plain'', ''d'')])"
  by (simp add: generate_closed np_concatenate_def Let_def engine_eval)


end
